theory Spec2Isabelle
  imports Complex_Main "HOL-Library.Word"
begin

unbundle bit_operations_syntax

section \<open>Loopback capture: the per-buffer signal chain\<close>

text \<open>
  The two capture back ends (\<^verbatim>\<open>wasapi_loopback.cc\<close> and \<^verbatim>\<open>coreaudio_loopback.cc\<close>)
  run the same chain on every captured buffer: mix down to mono, resample to 16 kHz,
  high-pass and gate, boost and limit, quantise to 16 bits, wrap into a RIFF/WAVE frame.
  The macOS file states that its chain is a port of the Windows one, and the two texts
  agree line by line; one set of definitions embeds both.

  Integers whose width matters are machine words. A C++ \<^verbatim>\<open>float\<close> or \<^verbatim>\<open>double\<close> is
  embedded as the real number it stands for, and every floating-point operation as the
  exact operation followed by rounding to the format of its result.
\<close>

subsection \<open>Floating-point arithmetic\<close>

text \<open>
  \<open>round_to p\<close> rounds a real to the nearest number with a significand of \<open>p\<close> bits, ties
  to the even significand: IEEE 754 round-to-nearest-even, the mode both compilers use.
  \<open>fl32\<close> is binary32 (\<^verbatim>\<open>float\<close>), \<open>fl64\<close> binary64 (\<^verbatim>\<open>double\<close>). The exponent is not
  bounded: overflow, gradual underflow, infinities and NaN are outside the embedding. Each
  operation rounds once, in the order the source writes it; a literal such as \<^verbatim>\<open>0.99f\<close>
  is \<open>fl32\<close> of its decimal value; \<^verbatim>\<open>sqrtf\<close>, \<^verbatim>\<open>expf\<close>, \<^verbatim>\<open>cosf\<close> and \<^verbatim>\<open>sinf\<close> are
  taken as correctly rounded. On a concrete input \<open>fl32\<close> is evaluated with the lemmas
  \<open>fl32_below_one\<close>, \<open>fl32_above_one\<close> and \<open>fl32_dyadic\<close> below.
\<close>

type_synonym float = real

definition round_even :: "real \<Rightarrow> int" where
  "round_even y =
     (let f = \<lfloor>y\<rfloor>
      in if y - of_int f < 1 / 2 then f
         else if y - of_int f > 1 / 2 then f + 1
         else if even f then f else f + 1)"

definition round_to :: "nat \<Rightarrow> real \<Rightarrow> real" where
  "round_to p x =
     (if x = 0 then 0
      else let q = 2 powr (of_int \<lfloor>log 2 \<bar>x\<bar>\<rfloor> - real p + 1)
           in of_int (round_even (x / q)) * q)"

definition fl32 :: "real \<Rightarrow> float" where
  "fl32 = round_to 24"

definition fl64 :: "real \<Rightarrow> real" where
  "fl64 = round_to 53"

subsection \<open>Step 1: mix-down to mono\<close>

text \<open>
  The negotiated stream format, as far as the chain reads it (\<^verbatim>\<open>WAVEFORMATEX\<close> on
  Windows, \<^verbatim>\<open>AudioStreamBasicDescription\<close> on macOS), and one captured buffer of
  interleaved samples, either 32-bit float or 16-bit signed PCM.
\<close>

record stream_format =
  nSamplesPerSec :: nat
  nChannels :: nat

datatype sample_data = FloatSamples "float list" | Int16Samples "16 word list"

definition clamp_unit :: "float \<Rightarrow> float" where
  "clamp_unit m = (if m > 1 then 1 else if m < -1 then -1 else m)"

definition mix_float :: "nat \<Rightarrow> float list \<Rightarrow> nat \<Rightarrow> float" where
  "mix_float inCh f i =
     (let sum = foldl (\<lambda>acc c. fl32 (acc + f ! (i * inCh + c))) 0 [0..<inCh];
          m = fl32 (sum / real inCh)
      in clamp_unit m)"

definition mix_int16 :: "nat \<Rightarrow> 16 word list \<Rightarrow> nat \<Rightarrow> float" where
  "mix_int16 inCh s i =
     (let sum = foldl (\<lambda>acc c. acc + sint (s ! (i * inCh + c))) (0::int) [0..<inCh];
          m = fl32 (fl32 (fl32 (real_of_int sum) / real inCh) / 32768)
      in clamp_unit m)"

definition to_mono :: "nat \<Rightarrow> nat \<Rightarrow> sample_data \<Rightarrow> float list" where
  "to_mono inCh frames d =
     (case d of
        FloatSamples f \<Rightarrow> map (mix_float inCh f) [0..<frames]
      | Int16Samples s \<Rightarrow> map (mix_int16 inCh s) [0..<frames])"

subsection \<open>Step 2: linear-interpolation resampling to 16 kHz\<close>

definition outRate :: nat where
  "outRate = 16000"

text \<open>
  \<^verbatim>\<open>size_t outLen = (size_t)((double)mono.size() * (double)outRate / (double)inRate);
  if (outLen == 0) outLen = 1;\<close>
  The cast of a non-negative double to \<^verbatim>\<open>size_t\<close> drops the fraction.
\<close>

definition outLen :: "nat \<Rightarrow> nat \<Rightarrow> nat" where
  "outLen n inRate =
     (let l = nat \<lfloor>fl64 (fl64 (real n * real outRate) / real inRate)\<rfloor>
      in if l = 0 then 1 else l)"

definition resample_at :: "nat \<Rightarrow> float list \<Rightarrow> nat \<Rightarrow> float" where
  "resample_at inRate monoBuf i =
     (let pos = fl64 (fl64 (real i * real inRate) / real outRate);
          idx = nat \<lfloor>pos\<rfloor>;
          frac = fl64 (pos - real idx);
          a = monoBuf ! (if idx < length monoBuf then idx else length monoBuf - 1);
          b = monoBuf ! (if idx + 1 < length monoBuf then idx + 1 else length monoBuf - 1)
      in fl32 (fl64 (fl64 (fl64 (1 - frac) * a) + fl64 (frac * b))))"

text \<open>
  The source guards neither an empty mono buffer (it would read \<^verbatim>\<open>mono[size_t(-1)]\<close>)
  nor a zero input rate (a division by zero whose result is then cast): both are
  undefined behaviour in C++, and the embedding returns \<open>None\<close> for them.
\<close>

definition resample :: "nat \<Rightarrow> float list \<Rightarrow> float list option" where
  "resample inRate monoBuf =
     (if monoBuf = [] \<or> inRate = 0 then None
      else Some (map (resample_at inRate monoBuf) [0..<outLen (length monoBuf) inRate]))"

text \<open>
  The output length as the specification words it: the quotient rounded to the nearest
  integer, at least one sample.
\<close>

definition spec_outLen :: "nat \<Rightarrow> nat \<Rightarrow> int" where
  "spec_outLen n inRate = max 1 (round (real n * 16000 / real inRate))"

subsection \<open>Step 3: high-pass biquad and adaptive noise gate\<close>

record BiquadHPF =
  b0 :: float
  b1 :: float
  b2 :: float
  a1 :: float
  a2 :: float
  z1 :: float
  z2 :: float

definition hpf_setup :: "float \<Rightarrow> float \<Rightarrow> float \<Rightarrow> BiquadHPF" where
  "hpf_setup fs fc Q =
     (let PI = fl32 3.14159265358979323846;
          w0 = fl32 (fl32 (2 * PI) * fl32 (fc / fs));
          c = fl32 (cos w0);
          s = fl32 (sin w0);
          alpha = fl32 (s / fl32 (2 * Q));
          a0 = fl32 (1 + alpha)
      in \<lparr> b0 = fl32 (fl32 (fl32 (1 + c) * 0.5) / a0),
           b1 = fl32 (- fl32 (1 + c) / a0),
           b2 = fl32 (fl32 (fl32 (1 + c) * 0.5) / a0),
           a1 = fl32 (fl32 (- 2 * c) / a0),
           a2 = fl32 (fl32 (1 - alpha) / a0),
           z1 = 0,
           z2 = 0 \<rparr>)"

definition hpf_process :: "BiquadHPF \<Rightarrow> float \<Rightarrow> float \<times> BiquadHPF" where
  "hpf_process h x =
     (let y = fl32 (fl32 (b0 h * x) + z1 h);
          z1' = fl32 (fl32 (fl32 (b1 h * x) + z2 h) - fl32 (a1 h * y));
          z2' = fl32 (fl32 (b2 h * x) - fl32 (a2 h * y))
      in (y, h\<lparr> z1 := z1', z2 := z2' \<rparr>))"

text \<open>
  The gate state: local variables of the capture thread on Windows, the members
  \<^verbatim>\<open>hpf_, env_, noiseFloor_, gainSmooth_, aEnv_, aRise_, aAtk_, aRel_\<close> on macOS.
\<close>

record dsp_state =
  hpf :: BiquadHPF
  env :: float
  noiseFloor :: float
  gainSmooth :: float
  aEnv :: float
  aRise :: float
  aAtk :: float
  aRel :: float

definition outFs :: float where
  "outFs = 16000"

definition tauEnv :: float where
  "tauEnv = fl32 0.010"

definition tauRise :: float where
  "tauRise = fl32 0.500"

definition tauAtk :: float where
  "tauAtk = fl32 0.005"

definition tauRel :: float where
  "tauRel = fl32 0.050"

text \<open>\<^verbatim>\<open>expf(-1.0f / (tau * outFs))\<close>, and the literal \<^verbatim>\<open>1e-6f\<close>.\<close>

definition smoothing_coeff :: "float \<Rightarrow> float" where
  "smoothing_coeff tau = fl32 (exp (fl32 (- 1 / fl32 (tau * outFs))))"

definition oneMicro :: float where
  "oneMicro = fl32 (1 / 1000000)"

definition init_dsp :: dsp_state where
  "init_dsp =
     \<lparr> hpf = hpf_setup outFs 90 (fl32 0.7071),
       env = 0,
       noiseFloor = fl32 0.003,
       gainSmooth = 1,
       aEnv = smoothing_coeff tauEnv,
       aRise = smoothing_coeff tauRise,
       aAtk = smoothing_coeff tauAtk,
       aRel = smoothing_coeff tauRel \<rparr>"

text \<open>The envelope follower: \<^verbatim>\<open>env = aEnv * env + (1.0f - aEnv) * av\<close>.\<close>

definition follow_envelope :: "dsp_state \<Rightarrow> float \<Rightarrow> float" where
  "follow_envelope s x =
     (let av = (if x < 0 then - x else x)
      in fl32 (fl32 (aEnv s * env s) + fl32 (fl32 (1 - aEnv s) * av)))"

text \<open>
  The noise-floor update, fast for drops and slow for rises, then floored:
  \<^verbatim>\<open>if (env < noiseFloor) noiseFloor = env;
  else noiseFloor = noiseFloor + (env - noiseFloor) * (1.0f - aRise);
  if (noiseFloor < 1e-6f) noiseFloor = 1e-6f;\<close>
\<close>

definition update_noiseFloor :: "float \<Rightarrow> float \<Rightarrow> float \<Rightarrow> float" where
  "update_noiseFloor rise e nf =
     (let nf1 = (if e < nf then e else fl32 (nf + fl32 (fl32 (e - nf) * fl32 (1 - rise))))
      in if nf1 < oneMicro then oneMicro else nf1)"

text \<open>
  The soft-knee target gain:
  \<^verbatim>\<open>thr = noiseFloor * 2.5f + 1e-6f; tGain = (env > thr) ? 1.0f : (env / thr);
  tGain = sqrtf(tGain);\<close>
\<close>

definition target_gain :: "float \<Rightarrow> float \<Rightarrow> float" where
  "target_gain e nf =
     (let thr = fl32 (fl32 (nf * 2.5) + oneMicro);
          tGain = (if e > thr then 1 else fl32 (e / thr))
      in fl32 (sqrt tGain))"

text \<open>
  The smoothed gain:
  \<^verbatim>\<open>a = (tGain < gainSmooth) ? aAtk : aRel; gainSmooth = tGain + (gainSmooth - tGain) * a;\<close>
\<close>

definition smooth_coeff :: "dsp_state \<Rightarrow> float \<Rightarrow> float" where
  "smooth_coeff s tGain = (if tGain < gainSmooth s then aAtk s else aRel s)"

definition smooth_gain :: "dsp_state \<Rightarrow> float \<Rightarrow> float" where
  "smooth_gain s tGain =
     fl32 (tGain + fl32 (fl32 (gainSmooth s - tGain) * smooth_coeff s tGain))"

text \<open>One pass of the per-sample loop: the gated sample and the state after it.\<close>

definition gate_sample :: "dsp_state \<Rightarrow> float \<Rightarrow> float \<times> dsp_state" where
  "gate_sample s x0 =
     (let (x, h) = hpf_process (hpf s) x0;
          e = follow_envelope s x;
          nf = update_noiseFloor (aRise s) e (noiseFloor s);
          tGain = target_gain e nf;
          g = smooth_gain s tGain
      in (fl32 (x * g), s\<lparr> hpf := h, env := e, noiseFloor := nf, gainSmooth := g \<rparr>))"

fun gate_buffer :: "dsp_state \<Rightarrow> float list \<Rightarrow> float list \<times> dsp_state" where
  "gate_buffer s [] = ([], s)"
| "gate_buffer s (x # xs) =
     (let (y, s1) = gate_sample s x;
          (ys, s2) = gate_buffer s1 xs
      in (y # ys, s2))"


subsection \<open>Step 4: voice boost with peak limiter\<close>

definition peak_of :: "float list \<Rightarrow> float" where
  "peak_of resampled =
     foldl (\<lambda>peak v. let av2 = (if v < 0 then - v else v)
                      in if av2 > peak then av2 else peak) 0 resampled"

definition kVoiceBoost :: float where
  "kVoiceBoost = 1.5"

definition boost_gain :: "float \<Rightarrow> float" where
  "boost_gain peak =
     (if peak < oneMicro then kVoiceBoost
      else if fl32 (peak * kVoiceBoost) > fl32 0.99 then fl32 (fl32 0.99 / peak)
      else kVoiceBoost)"

subsection \<open>Step 5: quantisation to 16-bit PCM\<close>

text \<open>The C++ conversion \<^verbatim>\<open>(int)\<close> of a floating value drops the fraction, towards zero.\<close>

definition int_cast :: "float \<Rightarrow> int" where
  "int_cast r = (if r \<ge> 0 then \<lfloor>r\<rfloor> else \<lceil>r\<rceil>)"

text \<open>
  \<^verbatim>\<open>float x = resampled[i] * gain;
  if (x > 1.0f) x = 1.0f; else if (x < -1.0f) x = -1.0f;
  int s = (int)(x * 32767.0f + (x >= 0 ? 0.5f : -0.5f));
  if (s > 32767) s = 32767; if (s < -32768) s = -32768;\<close>
  \<open>quantize_int\<close> is the step from the boosted sample \<open>x\<close> on.
\<close>

definition quantize_int :: "float \<Rightarrow> int" where
  "quantize_int x0 =
     (let x = clamp_unit x0;
          s = int_cast (fl32 (fl32 (x * 32767) + (if x \<ge> 0 then 0.5 else - 0.5)));
          s1 = (if s > 32767 then 32767 else s)
      in if s1 < - 32768 then - 32768 else s1)"

definition quantize :: "float \<Rightarrow> float \<Rightarrow> 16 word" where
  "quantize gain v = word_of_int (quantize_int (fl32 (v * gain)))"

text \<open>Rounding to the nearest integer, halves away from zero.\<close>

definition round_half_away :: "real \<Rightarrow> int" where
  "round_half_away y = (if y \<ge> 0 then \<lfloor>y + 1 / 2\<rfloor> else - \<lfloor>- y + 1 / 2\<rfloor>)"


subsection \<open>Step 6: the RIFF/WAVE frame\<close>

text \<open>
  The header fields are stored through \<^verbatim>\<open>uint32_t*\<close> and \<^verbatim>\<open>uint16_t*\<close> casts, in the
  byte order of the host; every target of the two back ends (x86, x86-64 and ARM64 under
  Windows and macOS) is little-endian, and so are the stores of this embedding.
\<close>

definition le16 :: "16 word \<Rightarrow> 8 word list" where
  "le16 w = [ucast w, ucast (drop_bit 8 w)]"

definition le32 :: "32 word \<Rightarrow> 8 word list" where
  "le32 w = [ucast w, ucast (drop_bit 8 w), ucast (drop_bit 16 w), ucast (drop_bit 24 w)]"

definition ascii :: "string \<Rightarrow> 8 word list" where
  "ascii s = map of_char s"

text \<open>\<^verbatim>\<open>memcpy(header + off, src, n)\<close> and the stores through a cast pointer.\<close>

definition memcpy_at :: "nat \<Rightarrow> 8 word list \<Rightarrow> 8 word list \<Rightarrow> 8 word list" where
  "memcpy_at off src buf = take off buf @ src @ drop (off + length src) buf"

definition wav_frame :: "16 word list \<Rightarrow> 8 word list" where
  "wav_frame int16Samples =
     (let channels = (1 :: 16 word);
          sampleRate = (word_of_nat outRate :: 32 word);
          pcmDataSize = (word_of_nat (length int16Samples * 2) :: 32 word);
          totalSize = 36 + pcmDataSize;
          wavBuffer = replicate (unat (44 + pcmDataSize)) (0 :: 8 word);
          w1 = memcpy_at 0 (ascii ''RIFF'') wavBuffer;
          w2 = memcpy_at 4 (le32 totalSize) w1;
          w3 = memcpy_at 8 (ascii ''WAVE'') w2;
          w4 = memcpy_at 12 (ascii ''fmt '') w3;
          w5 = memcpy_at 16 (le32 16) w4;
          w6 = memcpy_at 20 (le16 1) w5;
          w7 = memcpy_at 22 (le16 channels) w6;
          w8 = memcpy_at 24 (le32 sampleRate) w7;
          w9 = memcpy_at 28 (le32 (sampleRate * ucast channels * 2)) w8;
          w10 = memcpy_at 32 (le16 (channels * 2)) w9;
          w11 = memcpy_at 34 (le16 16) w10;
          w12 = memcpy_at 36 (ascii ''data'') w11;
          w13 = memcpy_at 40 (le32 pcmDataSize) w12
      in memcpy_at 44 (take (unat pcmDataSize) (concat (map le16 int16Samples))) w13)"

text \<open>The 44 header bytes for a payload of \<open>pcm\<close> bytes, written out.\<close>

definition wav_header :: "32 word \<Rightarrow> 8 word list" where
  "wav_header pcm = [0x52, 0x49, 0x46, 0x46] @ le32 (36 + pcm) @
     [0x57, 0x41, 0x56, 0x45, 0x66, 0x6D, 0x74, 0x20, 16, 0, 0, 0, 1, 0, 1, 0,
      0x80, 0x3E, 0, 0, 0x00, 0x7D, 0, 0, 2, 0, 16, 0, 0x64, 0x61, 0x74, 0x61] @ le32 pcm"

text \<open>Reading a little-endian field back, to state what a header field holds.\<close>

definition rd_le16 :: "nat \<Rightarrow> 8 word list \<Rightarrow> nat" where
  "rd_le16 off buf = unat (buf ! off) + 256 * unat (buf ! (off + 1))"

definition rd_le32 :: "nat \<Rightarrow> 8 word list \<Rightarrow> nat" where
  "rd_le32 off buf =
     unat (buf ! off) + 256 * unat (buf ! (off + 1)) + 65536 * unat (buf ! (off + 2))
       + 16777216 * unat (buf ! (off + 3))"

subsection \<open>The whole chain on one captured buffer\<close>

record captured =
  frames :: nat
  samples :: sample_data

definition process_buffer ::
  "stream_format \<Rightarrow> dsp_state \<Rightarrow> captured \<Rightarrow> (8 word list \<times> dsp_state) option" where
  "process_buffer fmt s b =
     (let inRate = nSamplesPerSec fmt;
          inCh = nChannels fmt;
          monoBuf = to_mono inCh (frames b) (samples b)
      in case resample inRate monoBuf of
           None \<Rightarrow> None
         | Some resampled \<Rightarrow>
             (let (gated, s') = gate_buffer s resampled;
                  gain = boost_gain (peak_of gated);
                  int16Samples = map (quantize gain) gated
              in Some (wav_frame int16Samples, s')))"

section \<open>Process directory: resolving a process name to a PID\<close>

text \<open>
  \<^verbatim>\<open>FindPidForProcess\<close> exists once per back end. Both walk the list of PIDs twice and
  return from inside the loop at the first hit. The Windows one compares with
  \<^verbatim>\<open>_stricmp(name.c_str(), processName.c_str()) == 0\<close>, the macOS one with
  \<^verbatim>\<open>name == processName\<close>. \<^verbatim>\<open>GetProcessName\<close> asks the operating system; it is a
  parameter here.
\<close>

definition tolower_c :: "char \<Rightarrow> char" where
  "tolower_c c =
     (if (65 :: nat) \<le> of_char c \<and> of_char c \<le> (90 :: nat)
      then char_of (of_char c + (32 :: nat)) else c)"

definition c_str :: "string \<Rightarrow> string" where
  "c_str s = takeWhile (\<lambda>c. c \<noteq> CHR 0x00) s"

definition stricmp_eq :: "string \<Rightarrow> string \<Rightarrow> bool" where
  "stricmp_eq a b = (map tolower_c (c_str a) = map tolower_c (c_str b))"

text \<open>\<^verbatim>\<open>s.find('.')\<close>: the index of the first dot, \<open>None\<close> for \<^verbatim>\<open>npos\<close>.\<close>

fun find_char :: "char \<Rightarrow> string \<Rightarrow> nat option" where
  "find_char c [] = None"
| "find_char c (x # xs) =
     (if x = c then Some 0 else map_option Suc (find_char c xs))"

text \<open>
  \<^verbatim>\<open>dotPos = baseName.find('.');
  if (dotPos != std::string::npos) baseName = baseName.substr(0, dotPos);\<close>
\<close>

definition base_of :: "string \<Rightarrow> string" where
  "base_of s = (case find_char (CHR ''.'') s of None \<Rightarrow> s | Some dotPos \<Rightarrow> take dotPos s)"

text \<open>A range-for over the PIDs that returns the first one passing the test.\<close>

fun first_pid :: "('p \<Rightarrow> bool) \<Rightarrow> 'p list \<Rightarrow> 'p option" where
  "first_pid hit [] = None"
| "first_pid hit (pid # rest) = (if hit pid then Some pid else first_pid hit rest)"

definition FindPidForProcess ::
  "(32 word \<Rightarrow> string) \<Rightarrow> 32 word list \<Rightarrow> string \<Rightarrow> 32 word" where
  "FindPidForProcess GetProcessName allPids processName =
     (case first_pid (\<lambda>pid. stricmp_eq (GetProcessName pid) processName) allPids of
        Some pid \<Rightarrow> pid
      | None \<Rightarrow>
          (let baseName = base_of processName
           in case first_pid (\<lambda>pid. stricmp_eq (base_of (GetProcessName pid)) baseName) allPids of
                Some pid \<Rightarrow> pid
              | None \<Rightarrow> 0))"

definition FindPidForProcess_mac ::
  "(int \<Rightarrow> string) \<Rightarrow> int list \<Rightarrow> string \<Rightarrow> int" where
  "FindPidForProcess_mac GetProcessName allPids processName =
     (case first_pid (\<lambda>pid. GetProcessName pid = processName) allPids of
        Some pid \<Rightarrow> pid
      | None \<Rightarrow>
          (let baseName = base_of processName
           in case first_pid (\<lambda>pid. base_of (GetProcessName pid) = baseName) allPids of
                Some pid \<Rightarrow> pid
              | None \<Rightarrow> 0))"

text \<open>
  The rule in the specification's words. \<open>first_in hit xs p\<close>: \<open>p\<close> is the first element of
  \<open>xs\<close> that passes the test. \<open>strip_last_suffix\<close> removes what follows the final dot, and
  \<open>spec_resolve\<close> is name resolution as the specification describes it.
\<close>

definition first_in :: "('p \<Rightarrow> bool) \<Rightarrow> 'p list \<Rightarrow> 'p \<Rightarrow> bool" where
  "first_in hit xs p =
     (\<exists>i < length xs. xs ! i = p \<and> hit p \<and> (\<forall>j < i. \<not> hit (xs ! j)))"

definition ci_equal :: "string \<Rightarrow> string \<Rightarrow> bool" where
  "ci_equal a b = (map tolower_c a = map tolower_c b)"

definition strip_last_suffix :: "string \<Rightarrow> string" where
  "strip_last_suffix s =
     (if CHR ''.'' \<in> set s then rev (tl (dropWhile (\<lambda>c. c \<noteq> CHR ''.'') (rev s))) else s)"

definition spec_resolve :: "('p \<Rightarrow> string) \<Rightarrow> 'p list \<Rightarrow> string \<Rightarrow> 'p option" where
  "spec_resolve name_of ps query =
     (case find (\<lambda>p. ci_equal (name_of p) query) ps of
        Some p \<Rightarrow> Some p
      | None \<Rightarrow>
          find (\<lambda>p. ci_equal (strip_last_suffix (name_of p)) (strip_last_suffix query)) ps)"



text \<open>Three small process tables, for the concrete cases below.\<close>

definition photos_only :: "32 word \<Rightarrow> string" where
  "photos_only pid = (if pid = 4242 then ''Microsoft.Photos.exe'' else [])"

definition chrome_only :: "32 word \<Rightarrow> string" where
  "chrome_only pid = (if pid = 77 then ''chrome.exe'' else [])"

definition safari_only :: "int \<Rightarrow> string" where
  "safari_only pid = (if pid = 501 then ''Safari'' else [])"

section \<open>Capture session: start, capture thread, stop\<close>

text \<open>
  A session is the capture object (\<^verbatim>\<open>WasapiLoopbackCapture\<close>,
  \<^verbatim>\<open>CoreAudioLoopbackCapture\<close>) together with the thread that \<^verbatim>\<open>Start\<close> spawns. The
  embedding is sequential: \<^verbatim>\<open>Start\<close> and \<^verbatim>\<open>Stop\<close> are functions on the object, the
  thread body is a function that runs on the object \<^verbatim>\<open>Start\<close> left behind, every call
  into the operating system is answered by a backend record that says which calls succeed,
  and a stop request of the controlling thread reaches the loop as an event. Of the
  diagnostic output the embedding keeps the lines that report a failure, and all lines of
  the macOS render callback.
\<close>

subsection \<open>What both back ends share\<close>

text \<open>
  \<^verbatim>\<open>tsfn_\<close>, the reference to the consumer's callback: absent, held, or released.
\<close>

datatype tsfn_ref = NoTsfn | Held nat | Released nat

definition Release :: "tsfn_ref \<Rightarrow> tsfn_ref" where
  "Release r = (case r of Held k \<Rightarrow> Released k | _ \<Rightarrow> r)"

text \<open>
  The members both classes have. \<open>capture_thread\<close> is \<^verbatim>\<open>capture_thread_.joinable()\<close>: a
  \<^verbatim>\<open>std::thread\<close> stays joinable after its function has returned, until it is joined.
\<close>

record capture_core =
  running :: bool
  tsfn :: tsfn_ref
  targetPid :: "32 word"
  capture_thread :: bool

text \<open>
  A call returns, or the process is terminated: assigning a new thread to a
  \<^verbatim>\<open>std::thread\<close> that is still joinable calls \<^verbatim>\<open>std::terminate\<close>.
\<close>

datatype 'a outcome = Returns 'a | Terminates

datatype log_msg =
    CoInitializeEx_failed
  | Create_MMDeviceEnumerator_failed
  | GetDefaultAudioEndpoint_failed
  | Activate_IAudioClient_failed
  | GetMixFormat_failed
  | Activate_IAudioClient_fallback_failed
  | IAudioClient_Initialize_failed
  | CreateEvent_failed
  | SetEventHandle_failed
  | GetService_failed
  | AudioClient_Start_failed
  | GetBuffer_failed
  | BlackHole_input_not_found
  | Failed_to_start_capture
  | InputCallback_called
  | Failed_to_allocate_buffer
  | Audio_check
  | AudioUnitRender_failed
  | Audio_level_check

subsection \<open>Windows: \<^verbatim>\<open>WasapiLoopbackCapture\<close>\<close>

definition wasapi_Start :: "32 word \<Rightarrow> nat \<Rightarrow> capture_core \<Rightarrow> bool outcome \<times> capture_core" where
  "wasapi_Start pid cb s =
     (if running s then (Returns False, s)
      else let s1 = s\<lparr> running := True, tsfn := Held cb, targetPid := pid \<rparr>
           in if capture_thread s1 then (Terminates, s1)
              else (Returns True, s1\<lparr> capture_thread := True \<rparr>))"

text \<open>
  \<^verbatim>\<open>running_ = false; if (capture_thread_.joinable()) capture_thread_.join();\<close>
\<close>

definition wasapi_Stop :: "capture_core \<Rightarrow> capture_core" where
  "wasapi_Stop s = s\<lparr> running := False, capture_thread := False \<rparr>"

text \<open>Which calls of the capture thread succeed, and the mix format the device reports.\<close>

record wasapi_backend =
  CoInitializeEx_ok :: bool
  CoCreateInstance_ok :: bool
  GetDefaultAudioEndpoint_ok :: bool
  Activate3_ok :: bool
  Activate1_ok :: bool
  GetMixFormat_ok :: bool
  Initialize3_ok :: bool
  ActivateFallback_ok :: bool
  Initialize1_ok :: bool
  CreateEvent_ok :: bool
  SetEventHandle_ok :: bool
  GetService_ok :: bool
  AudioClientStart_ok :: bool
  mix_format :: stream_format

text \<open>The resources the thread holds: \<open>True\<close> for a live COM pointer, buffer or handle.\<close>

record wasapi_locals =
  com_initialized :: bool
  enumr :: bool
  device :: bool
  audioClient3 :: bool
  audioClient1 :: bool
  cap :: bool
  pwfx :: bool
  hEvent :: bool

definition idle_locals :: wasapi_locals where
  "idle_locals =
     \<lparr> com_initialized = False, enumr = False, device = False, audioClient3 = False,
       audioClient1 = False, cap = False, pwfx = False, hEvent = False \<rparr>"

text \<open>
  The body of \<^verbatim>\<open>do { ... } while (false)\<close> up to the capture loop. Each step either goes
  on with the locals it leaves, or prints its message and leaves the block with
  \<^verbatim>\<open>break\<close>.
\<close>

datatype acquired = Broke log_msg wasapi_locals | Acquired wasapi_locals

fun and_then :: "acquired \<Rightarrow> (wasapi_locals \<Rightarrow> acquired) \<Rightarrow> acquired" where
  "and_then (Broke m l) f = Broke m l"
| "and_then (Acquired l) f = f l"

definition create_enumerator :: "wasapi_backend \<Rightarrow> wasapi_locals \<Rightarrow> acquired" where
  "create_enumerator be l =
     (if CoCreateInstance_ok be then Acquired (l\<lparr> enumr := True \<rparr>)
      else Broke Create_MMDeviceEnumerator_failed l)"

definition get_endpoint :: "wasapi_backend \<Rightarrow> wasapi_locals \<Rightarrow> acquired" where
  "get_endpoint be l =
     (if GetDefaultAudioEndpoint_ok be then Acquired (l\<lparr> device := True \<rparr>)
      else Broke GetDefaultAudioEndpoint_failed l)"

definition activate_client :: "wasapi_backend \<Rightarrow> wasapi_locals \<Rightarrow> acquired" where
  "activate_client be l =
     (if Activate3_ok be then Acquired (l\<lparr> audioClient3 := True \<rparr>)
      else if Activate1_ok be then Acquired (l\<lparr> audioClient1 := True \<rparr>)
      else Broke Activate_IAudioClient_failed l)"

definition get_mix_format :: "wasapi_backend \<Rightarrow> wasapi_locals \<Rightarrow> acquired" where
  "get_mix_format be l =
     (if GetMixFormat_ok be then Acquired (l\<lparr> pwfx := True \<rparr>)
      else Broke GetMixFormat_failed l)"

text \<open>
  \<^verbatim>\<open>IAudioClient3::Initialize\<close> is called the same way for \<^verbatim>\<open>pid == 0\<close> and
  \<^verbatim>\<open>pid > 0\<close>; when it fails the client is reset and the older interface takes over.
\<close>

definition initialize3 :: "wasapi_backend \<Rightarrow> wasapi_locals \<Rightarrow> acquired" where
  "initialize3 be l =
     Acquired (if audioClient3 l \<and> \<not> Initialize3_ok be then l\<lparr> audioClient3 := False \<rparr> else l)"

definition initialize1 :: "wasapi_backend \<Rightarrow> wasapi_locals \<Rightarrow> acquired" where
  "initialize1 be l =
     (if audioClient3 l then Acquired l
      else if \<not> audioClient1 l \<and> \<not> ActivateFallback_ok be
           then Broke Activate_IAudioClient_fallback_failed l
      else let l1 = l\<lparr> audioClient1 := True \<rparr>
           in if Initialize1_ok be then Acquired l1
              else Broke IAudioClient_Initialize_failed l1)"

definition create_event :: "wasapi_backend \<Rightarrow> wasapi_locals \<Rightarrow> acquired" where
  "create_event be l =
     (if CreateEvent_ok be then Acquired (l\<lparr> hEvent := True \<rparr>)
      else Broke CreateEvent_failed l)"

definition set_event_handle :: "wasapi_backend \<Rightarrow> wasapi_locals \<Rightarrow> acquired" where
  "set_event_handle be l =
     (if SetEventHandle_ok be then Acquired l else Broke SetEventHandle_failed l)"

definition get_service :: "wasapi_backend \<Rightarrow> wasapi_locals \<Rightarrow> acquired" where
  "get_service be l =
     (if GetService_ok be then Acquired (l\<lparr> cap := True \<rparr>)
      else Broke GetService_failed l)"

definition start_client :: "wasapi_backend \<Rightarrow> wasapi_locals \<Rightarrow> acquired" where
  "start_client be l =
     (if AudioClientStart_ok be then Acquired l else Broke AudioClient_Start_failed l)"

definition wasapi_acquire :: "wasapi_backend \<Rightarrow> wasapi_locals \<Rightarrow> acquired" where
  "wasapi_acquire be l =
     foldl and_then (Acquired l)
       [create_enumerator be, get_endpoint be, activate_client be, get_mix_format be,
        initialize3 be, initialize1 be, create_event be, set_event_handle be,
        get_service be, start_client be]"

text \<open>The code after the block: every handle closed, every pointer reset, COM left.\<close>

definition wasapi_cleanup :: "wasapi_locals \<Rightarrow> wasapi_locals" where
  "wasapi_cleanup l =
     l\<lparr> hEvent := False, cap := False, audioClient3 := False, audioClient1 := False,
        device := False, enumr := False, pwfx := False, com_initialized := False \<rparr>"

text \<open>
  What the thread owns while it runs: its resources, the gate state, the lines it printed
  and the frames it handed to the consumer.
\<close>

record wasapi_thread =
  locals :: wasapi_locals
  thread_dsp :: dsp_state
  printed :: "log_msg list"
  delivered :: "8 word list list"

text \<open>
  One wake-up of the capture loop drains the packets that are ready: \<open>BufferReady bs e\<close>
  stands for the buffers \<open>bs\<close> fetched in turn and then the reason \<open>e\<close> that ends the inner
  \<^verbatim>\<open>for (;;)\<close>: \<^verbatim>\<open>GetNextPacketSize\<close> failed, it reported no packet, or
  \<^verbatim>\<open>GetBuffer\<close> failed.
\<close>

datatype drain_end = PacketSizeFailed | NoPacket | GetBufferFailed

datatype loop_event = WaitTimeout | BufferReady "captured list" drain_end | StopRequested

fun drain :: "stream_format \<Rightarrow> captured list \<Rightarrow> drain_end \<Rightarrow> wasapi_thread \<Rightarrow> wasapi_thread option" where
  "drain fmt [] e t =
     Some (case e of
             GetBufferFailed \<Rightarrow> t\<lparr> printed := printed t @ [GetBuffer_failed] \<rparr>
           | _ \<Rightarrow> t)"
| "drain fmt (b # bs) e t =
     (case process_buffer fmt (thread_dsp t) b of
        None \<Rightarrow> None
      | Some (frame, d) \<Rightarrow>
          drain fmt bs e (t\<lparr> thread_dsp := d, delivered := delivered t @ [frame] \<rparr>))"

text \<open>
  \<^verbatim>\<open>while (running_) { wait; drain }\<close> over the events that arrive. \<open>Waiting\<close>: the
  events are used up and the loop waits for the next one; \<open>Exited\<close>: the loop has seen
  \<^verbatim>\<open>running_\<close> false; \<open>Undefined\<close>: a buffer led the chain into undefined behaviour.
\<close>

datatype 'a loop_result = Undefined | Waiting 'a | Exited 'a

fun capture_loop ::
  "stream_format \<Rightarrow> loop_event list \<Rightarrow> capture_core \<times> wasapi_thread
     \<Rightarrow> (capture_core \<times> wasapi_thread) loop_result" where
  "capture_loop fmt [] (c, t) = (if running c then Waiting (c, t) else Exited (c, t))"
| "capture_loop fmt (ev # evs) (c, t) =
     (if \<not> running c then Exited (c, t)
      else case ev of
             WaitTimeout \<Rightarrow> capture_loop fmt evs (c, t)
           | StopRequested \<Rightarrow> capture_loop fmt evs (c\<lparr> running := False \<rparr>, t)
           | BufferReady bs e \<Rightarrow>
               (case drain fmt bs e t of
                  None \<Rightarrow> Undefined
                | Some t' \<Rightarrow> capture_loop fmt evs (c, t')))"

text \<open>The thread body: the lambda passed to \<^verbatim>\<open>std::thread\<close> in \<^verbatim>\<open>Start\<close>.\<close>

definition wasapi_capture_thread ::
  "wasapi_backend \<Rightarrow> loop_event list \<Rightarrow> capture_core
     \<Rightarrow> (capture_core \<times> wasapi_thread) loop_result" where
  "wasapi_capture_thread be evs c =
     (if \<not> CoInitializeEx_ok be
      then Exited (c\<lparr> running := False, tsfn := Release (tsfn c) \<rparr>,
                   \<lparr> locals = idle_locals, thread_dsp = init_dsp,
                     printed = [CoInitializeEx_failed], delivered = [] \<rparr>)
      else case wasapi_acquire be (idle_locals\<lparr> com_initialized := True \<rparr>) of
             Broke m l \<Rightarrow>
               Exited (c\<lparr> tsfn := Release (tsfn c) \<rparr>,
                       \<lparr> locals = wasapi_cleanup l, thread_dsp = init_dsp,
                         printed = [m], delivered = [] \<rparr>)
           | Acquired l \<Rightarrow>
               (case capture_loop (mix_format be) evs
                       (c, \<lparr> locals = l, thread_dsp = init_dsp, printed = [], delivered = [] \<rparr>) of
                  Undefined \<Rightarrow> Undefined
                | Waiting w \<Rightarrow> Waiting w
                | Exited (c', t') \<Rightarrow>
                    Exited (c'\<lparr> tsfn := Release (tsfn c') \<rparr>,
                            t'\<lparr> locals := wasapi_cleanup (locals t') \<rparr>)))"

subsection \<open>macOS: \<^verbatim>\<open>CoreAudioLoopbackCapture\<close>\<close>

datatype audio_unit = NoUnit | UnitCreated | UnitInitialized | UnitStarted

record CoreAudioLoopbackCapture = capture_core +
  excludeCurrentPid :: bool
  currentPid :: int
  audioUnit :: audio_unit
  deviceId :: nat
  aggregateDeviceId :: nat
  usingTap :: bool
  dsp :: dsp_state
  inputFormat :: stream_format
  inputBytesPerFrame :: nat

definition coreaudio_Start ::
  "int \<Rightarrow> 32 word \<Rightarrow> nat \<Rightarrow> CoreAudioLoopbackCapture
     \<Rightarrow> bool outcome \<times> CoreAudioLoopbackCapture" where
  "coreaudio_Start getpid pid cb s =
     (if running s then (Returns False, s)
      else let s1 = s\<lparr> running := True, tsfn := Held cb, targetPid := pid,
                       currentPid := getpid, excludeCurrentPid := (pid = 0) \<rparr>
           in if capture_thread s1 then (Terminates, s1)
              else (Returns True, s1\<lparr> capture_thread := True \<rparr>))"

text \<open>
  Which calls of the capture thread succeed; \<open>blackHoleInput\<close> is the device
  \<^verbatim>\<open>FindBlackHoleInputDevice\<close> returns, 0 for \<^verbatim>\<open>kAudioDeviceUnknown\<close>.
\<close>

record coreaudio_backend =
  blackHoleInput :: nat
  AudioComponentFindNext_ok :: bool
  AudioComponentInstanceNew_ok :: bool
  EnableInput_ok :: bool
  DisableOutput_ok :: bool
  SetCurrentDevice_ok :: bool
  GetStreamFormat_ok :: bool
  SetInputCallback_ok :: bool
  AudioUnitInitialize_ok :: bool
  AudioOutputUnitStart_ok :: bool
  device_format :: stream_format
  device_bytes_per_frame :: nat

definition TryAudioUnitHALApproach ::
  "coreaudio_backend \<Rightarrow> nat \<Rightarrow> CoreAudioLoopbackCapture \<Rightarrow> bool \<times> CoreAudioLoopbackCapture" where
  "TryAudioUnitHALApproach be blackHoleDevice s0 =
     (let s = s0\<lparr> deviceId := blackHoleDevice, usingTap := False \<rparr>
      in if \<not> AudioComponentFindNext_ok be then (False, s)
         else if \<not> AudioComponentInstanceNew_ok be then (False, s)
         else let sc = s\<lparr> audioUnit := UnitCreated \<rparr>
         in if \<not> EnableInput_ok be then (False, sc\<lparr> audioUnit := NoUnit \<rparr>)
         else if \<not> DisableOutput_ok be then (False, sc\<lparr> audioUnit := NoUnit \<rparr>)
         else if \<not> SetCurrentDevice_ok be then (False, sc\<lparr> audioUnit := NoUnit \<rparr>)
         else if \<not> GetStreamFormat_ok be then (False, sc\<lparr> audioUnit := NoUnit \<rparr>)
         else let s1 = sc\<lparr> inputFormat := device_format be,
                            inputBytesPerFrame := device_bytes_per_frame be \<rparr>
         in if \<not> SetInputCallback_ok be then (False, s1\<lparr> audioUnit := NoUnit \<rparr>)
         else let s2 = s1\<lparr> dsp := init_dsp \<rparr>
         in if \<not> AudioUnitInitialize_ok be then (False, s2\<lparr> audioUnit := NoUnit \<rparr>)
         else let s3 = s2\<lparr> audioUnit := UnitInitialized \<rparr>
         in if \<not> AudioOutputUnitStart_ok be then (False, s3\<lparr> audioUnit := NoUnit \<rparr>)
         else (True, s3\<lparr> audioUnit := UnitStarted \<rparr>))"

text \<open>
  The thread body of \<^verbatim>\<open>Start\<close>. Its loop only sleeps while \<^verbatim>\<open>running_\<close> holds;
  \<open>stop_seen\<close> says whether the loop has seen the flag cleared.
\<close>

definition coreaudio_capture_thread ::
  "coreaudio_backend \<Rightarrow> bool \<Rightarrow> CoreAudioLoopbackCapture
     \<Rightarrow> (CoreAudioLoopbackCapture \<times> log_msg list) loop_result" where
  "coreaudio_capture_thread be stop_seen s =
     (if blackHoleInput be = 0
      then Exited (s\<lparr> running := False, tsfn := Release (tsfn s) \<rparr>, [BlackHole_input_not_found])
      else let s1 = s\<lparr> deviceId := blackHoleInput be \<rparr>;
               (ok, s2) = TryAudioUnitHALApproach be (deviceId s1) s1
           in if \<not> ok
              then Exited (s2\<lparr> running := False, tsfn := Release (tsfn s2) \<rparr>,
                           [Failed_to_start_capture])
              else if \<not> stop_seen then Waiting (s2, [])
              else let s3 = (if audioUnit s2 \<noteq> NoUnit \<and> \<not> usingTap s2
                             then s2\<lparr> audioUnit := NoUnit \<rparr> else s2)
                   in Exited (s3\<lparr> tsfn := Release (tsfn s3) \<rparr>, []))"

definition coreaudio_Stop :: "CoreAudioLoopbackCapture \<Rightarrow> CoreAudioLoopbackCapture" where
  "coreaudio_Stop s =
     (if \<not> running s then s
      else let s1 = s\<lparr> running := False \<rparr>;
               s2 = (if audioUnit s1 \<noteq> NoUnit \<and> \<not> usingTap s1
                     then s1\<lparr> audioUnit := NoUnit \<rparr> else s1);
               s3 = (if aggregateDeviceId s2 \<noteq> 0 then s2\<lparr> aggregateDeviceId := 0 \<rparr> else s2)
           in s3\<lparr> capture_thread := False, tsfn := Release (tsfn s3) \<rparr>)"

text \<open>
  The function-local statics of \<^verbatim>\<open>InputCallback\<close> and \<^verbatim>\<open>ProcessAudioBuffer\<close> that steer
  what is printed.
\<close>

record callback_statics =
  callbackCount :: nat
  debugCount :: nat
  sampleCount :: nat

text \<open>
  \<^verbatim>\<open>ProcessAudioBuffer\<close>: the chain on the members' gate state, the frame handed to the
  consumer, and the amplitude line once 16000 input frames have gone by.
\<close>

definition ProcessAudioBuffer ::
  "captured \<Rightarrow> CoreAudioLoopbackCapture \<Rightarrow> callback_statics
     \<Rightarrow> (CoreAudioLoopbackCapture \<times> callback_statics \<times> log_msg list \<times> 8 word list list) option" where
  "ProcessAudioBuffer b s cs =
     (case process_buffer (inputFormat s) (dsp s) b of
        None \<Rightarrow> None
      | Some (frame, d) \<Rightarrow>
          (let n = sampleCount cs + frames b
           in Some (s\<lparr> dsp := d \<rparr>,
                    cs\<lparr> sampleCount := (if n \<ge> 16000 then 0 else n) \<rparr>,
                    (if n \<ge> 16000 then [Audio_level_check] else []),
                    [frame])))"

text \<open>
  The render callback. \<open>RenderFailed st\<close>: \<^verbatim>\<open>AudioUnitRender\<close> returned the status
  \<open>st \<noteq> noErr\<close>. The result is the status returned to the audio unit.
\<close>

datatype render_result = Rendered captured | RenderFailed int

definition InputCallback ::
  "bool \<Rightarrow> render_result \<Rightarrow> nat \<Rightarrow> CoreAudioLoopbackCapture \<Rightarrow> callback_statics
     \<Rightarrow> (int \<times> CoreAudioLoopbackCapture \<times> callback_statics \<times> log_msg list \<times> 8 word list list) option" where
  "InputCallback malloc_ok render inNumberFrames s cs0 =
     (if \<not> running s then Some (0, s, cs0, [], [])
      else let cs = cs0\<lparr> callbackCount := callbackCount cs0 + 1 \<rparr>;
               log0 = (if callbackCount cs mod 100 = 0 then [InputCallback_called] else [])
           in if \<not> malloc_ok then Some (- 1, s, cs, log0 @ [Failed_to_allocate_buffer], [])
              else case render of
                     RenderFailed st \<Rightarrow>
                       Some (st, s, cs,
                             log0 @ (if callbackCount cs \<le> 5 then [AudioUnitRender_failed] else []),
                             [])
                   | Rendered b \<Rightarrow>
                       (let checked = (inNumberFrames * inputBytesPerFrame s \<ge> 4);
                            log1 = (if checked \<and> debugCount cs mod 50 = 0 then [Audio_check] else []);
                            cs1 = (if checked then cs\<lparr> debugCount := debugCount cs + 1 \<rparr> else cs)
                        in case ProcessAudioBuffer (b\<lparr> frames := inNumberFrames \<rparr>) s cs1 of
                             None \<Rightarrow> None
                           | Some (s', cs2, log2, out) \<Rightarrow>
                               Some (0, s', cs2, log0 @ log1 @ log2, out)))"

subsection \<open>Fresh objects and example back ends\<close>

text \<open>
  The constructors: \<^verbatim>\<open>running_(false), targetPid_(0)\<close> on Windows; on macOS also
  \<^verbatim>\<open>excludeCurrentPid_(false), audioUnit_(nullptr), aggregateDeviceId_(kAudioObjectUnknown),
  usingTap_(false)\<close>, the other members being left uninitialised (parameters here).
\<close>

definition new_WasapiLoopbackCapture :: capture_core where
  "new_WasapiLoopbackCapture =
     \<lparr> running = False, tsfn = NoTsfn, targetPid = 0, capture_thread = False \<rparr>"

definition new_CoreAudioLoopbackCapture ::
  "int \<Rightarrow> nat \<Rightarrow> dsp_state \<Rightarrow> stream_format \<Rightarrow> nat \<Rightarrow> CoreAudioLoopbackCapture" where
  "new_CoreAudioLoopbackCapture cur dev d fmt bpf =
     \<lparr> running = False, tsfn = NoTsfn, targetPid = 0, capture_thread = False,
       excludeCurrentPid = False, currentPid = cur, audioUnit = NoUnit, deviceId = dev,
       aggregateDeviceId = 0, usingTap = False, dsp = d, inputFormat = fmt,
       inputBytesPerFrame = bpf \<rparr>"

definition stereo_48k :: stream_format where
  "stereo_48k = \<lparr> nSamplesPerSec = 48000, nChannels = 2 \<rparr>"

text \<open>A Windows back end on which everything works, and one without a device enumerator.\<close>

definition working_wasapi :: wasapi_backend where
  "working_wasapi =
     \<lparr> CoInitializeEx_ok = True, CoCreateInstance_ok = True,
       GetDefaultAudioEndpoint_ok = True, Activate3_ok = True, Activate1_ok = True,
       GetMixFormat_ok = True, Initialize3_ok = True, ActivateFallback_ok = True,
       Initialize1_ok = True, CreateEvent_ok = True, SetEventHandle_ok = True,
       GetService_ok = True, AudioClientStart_ok = True, mix_format = stereo_48k \<rparr>"

definition no_enumerator :: wasapi_backend where
  "no_enumerator = working_wasapi\<lparr> CoCreateInstance_ok := False \<rparr>"

text \<open>A macOS back end on which everything works, and one without the loopback device.\<close>

definition working_coreaudio :: coreaudio_backend where
  "working_coreaudio =
     \<lparr> blackHoleInput = 73, AudioComponentFindNext_ok = True,
       AudioComponentInstanceNew_ok = True, EnableInput_ok = True, DisableOutput_ok = True,
       SetCurrentDevice_ok = True, GetStreamFormat_ok = True, SetInputCallback_ok = True,
       AudioUnitInitialize_ok = True, AudioOutputUnitStart_ok = True,
       device_format = stereo_48k, device_bytes_per_frame = 8 \<rparr>"

definition no_blackhole :: coreaudio_backend where
  "no_blackhole = working_coreaudio\<lparr> blackHoleInput := 0 \<rparr>"

text \<open>A macOS session that runs, as \<^verbatim>\<open>Start\<close> and a successful thread start leave it.\<close>

definition running_mac_session :: CoreAudioLoopbackCapture where
  "running_mac_session =
     \<lparr> running = True, tsfn = Held 7, targetPid = 0, capture_thread = True,
       excludeCurrentPid = True, currentPid = 4711, audioUnit = UnitStarted, deviceId = 73,
       aggregateDeviceId = 0, usingTap = False, dsp = init_dsp, inputFormat = stereo_48k,
       inputBytesPerFrame = 8 \<rparr>"

section \<open>Properties of the floating-point rounding\<close>

lemma round_even_near: "\<bar>of_int (round_even y) - y\<bar> \<le> 1 / 2"
  unfolding round_even_def Let_def by (auto; linarith)

lemma round_even_int [simp]: "round_even (of_int k) = k"
  by (simp add: round_even_def)

lemma round_to_error:
  "\<bar>round_to p x - x\<bar> \<le> \<bar>x\<bar> / 2 ^ p"
proof (cases "x = 0")
  case True
  then show ?thesis by (simp add: round_to_def)
next
  case False
  define e where "e = \<lfloor>log 2 \<bar>x\<bar>\<rfloor>"
  define q where "q = 2 powr (of_int e - real p + 1)"
  have q: "0 < q" unfolding q_def by simp
  have lo: "2 powr (of_int e) \<le> \<bar>x\<bar>"
    using floor_log_eq_powr_iff [of "\<bar>x\<bar>" 2 e] False e_def by simp
  have qe: "q / 2 = 2 powr (of_int e) / 2 ^ p"
    unfolding q_def by (simp add: powr_diff powr_add powr_realpow)
  have "round_to p x = of_int (round_even (x / q)) * q"
    using False by (simp add: round_to_def e_def q_def Let_def)
  then have "\<bar>round_to p x - x\<bar> = \<bar>of_int (round_even (x / q)) - x / q\<bar> * q"
    using q by (simp add: abs_mult [symmetric] left_diff_distrib abs_mult_pos)
  also have "\<dots> \<le> 1 / 2 * q"
    using round_even_near [of "x / q"] q by (intro mult_right_mono) simp_all
  also have "\<dots> = 2 powr (of_int e) / 2 ^ p"
    using qe by simp
  also have "\<dots> \<le> \<bar>x\<bar> / 2 ^ p"
    using lo by (intro divide_right_mono) simp_all
  finally show ?thesis .
qed

lemma round_to_binade:
  assumes "2 powr (of_int k) \<le> \<bar>x\<bar>" "\<bar>x\<bar> < 2 powr (of_int k + 1)"
  shows "round_to p x = of_int (round_even (x / 2 powr (of_int k - real p + 1))) * 2 powr (of_int k - real p + 1)"
proof -
  have "0 < (2 :: real) powr (of_int k)" by simp
  then have x: "x \<noteq> 0" using assms(1) by linarith
  then have "\<lfloor>log 2 \<bar>x\<bar>\<rfloor> = k"
    using floor_log_eq_powr_iff [of "\<bar>x\<bar>" 2 k] assms by simp
  then show ?thesis using x by (simp add: round_to_def Let_def)
qed


lemma round_even_mono: "a \<le> b \<Longrightarrow> round_even a \<le> round_even b"
proof -
  assume ab: "a \<le> b"
  have lo: "\<lfloor>y\<rfloor> \<le> round_even y" and hi: "round_even y \<le> \<lfloor>y\<rfloor> + 1" for y
    by (simp_all add: round_even_def Let_def)
  show ?thesis
  proof (cases "\<lfloor>a\<rfloor> = \<lfloor>b\<rfloor>")
    case True
    then have "a - of_int \<lfloor>a\<rfloor> \<le> b - of_int \<lfloor>b\<rfloor>" using ab by simp
    then show ?thesis
      using True by (auto simp: round_even_def Let_def)
  next
    case False
    then have "\<lfloor>a\<rfloor> + 1 \<le> \<lfloor>b\<rfloor>" using floor_mono [OF ab] by linarith
    then show ?thesis using hi [of a] lo [of b] by linarith
  qed
qed

lemma round_even_minus: "round_even (- y) = - round_even y"
proof (cases "y = of_int \<lfloor>y\<rfloor>")
  case True
  then obtain k where "y = of_int k" by metis
  then show ?thesis by (simp flip: of_int_minus)
next
  case False
  then have f: "\<lfloor>- y\<rfloor> = - \<lfloor>y\<rfloor> - 1"
    by (simp add: floor_minus ceiling_altdef)
  have e: "even (- \<lfloor>y\<rfloor> - 1) \<longleftrightarrow> odd \<lfloor>y\<rfloor>" by simp
  show ?thesis
    unfolding round_even_def Let_def f e
    by (auto simp: algebra_simps; linarith)
qed

lemma round_to_minus: "round_to p (- x) = - round_to p x"
  by (simp add: round_to_def Let_def round_even_minus)

lemma round_to_pos_bounds:
  assumes "0 < x" "0 < p"
  shows "2 powr (of_int \<lfloor>log 2 x\<rfloor>) \<le> round_to p x"
    and "round_to p x \<le> 2 powr (of_int \<lfloor>log 2 x\<rfloor> + 1)"
proof -
  define e where "e = \<lfloor>log 2 x\<rfloor>"
  define q where "q = 2 powr (of_int e - real p + 1)"
  have q: "0 < q" unfolding q_def by simp
  have b: "2 powr (of_int e) \<le> x" "x < 2 powr (of_int e + 1)"
    using floor_log_eq_powr_iff [of x 2 e] assms e_def by simp_all
  have q1: "2 powr (of_int e) = 2 ^ (p - 1) * q"
  proof -
    have "q = 2 powr (of_int e) / 2 powr (real (p - 1))"
      unfolding q_def using assms(2) by (simp add: powr_diff [symmetric] of_nat_diff algebra_simps)
    then show ?thesis by (simp add: powr_realpow)
  qed
  have q2: "2 powr (of_int e + 1) = 2 ^ p * q"
  proof -
    have "2 ^ p = (2::real) * 2 ^ (p - 1)" using assms(2) by (cases p) simp_all
    then show ?thesis using q1 by (simp add: powr_add)
  qed
  have r: "round_to p x = of_int (round_even (x / q)) * q"
    using assms by (simp add: round_to_def Let_def e_def q_def)
  have "of_int (2 ^ (p - 1)) \<le> x / q"
    using b(1) q unfolding q1 by (simp add: field_simps)
  then have "round_even (of_int (2 ^ (p - 1))) \<le> round_even (x / q)"
    by (rule round_even_mono)
  then have "(2 :: int) ^ (p - 1) \<le> round_even (x / q)"
    by (simp only: round_even_int)
  then have "real_of_int (2 ^ (p - 1)) \<le> of_int (round_even (x / q))"
    by (simp only: of_int_le_iff)
  then have l: "(2 :: real) ^ (p - 1) \<le> of_int (round_even (x / q))"
    by simp
  have "x / q \<le> of_int (2 ^ p)"
    using b(2) q unfolding q2 by (simp add: field_simps)
  then have "round_even (x / q) \<le> round_even (of_int (2 ^ p))"
    by (rule round_even_mono)
  then have "round_even (x / q) \<le> (2 :: int) ^ p"
    by (simp only: round_even_int)
  then have "real_of_int (round_even (x / q)) \<le> of_int (2 ^ p)"
    by (simp only: of_int_le_iff)
  then have u: "of_int (round_even (x / q)) \<le> (2 :: real) ^ p"
    by simp
  show "2 powr (of_int \<lfloor>log 2 x\<rfloor>) \<le> round_to p x"
    unfolding e_def [symmetric] q1 r using l q by simp
  show "round_to p x \<le> 2 powr (of_int \<lfloor>log 2 x\<rfloor> + 1)"
    unfolding e_def [symmetric] q2 r using u q by simp
qed

lemma round_to_pos: "0 < x \<Longrightarrow> 0 < p \<Longrightarrow> 0 < round_to p x"
  using round_to_pos_bounds(1) [of x p] powr_gt_zero [of 2 "of_int \<lfloor>log 2 x\<rfloor>"] by linarith

lemma round_to_mono_pos:
  assumes "0 < x" "x \<le> y" "0 < p"
  shows "round_to p x \<le> round_to p y"
proof (cases "\<lfloor>log 2 x\<rfloor> = \<lfloor>log 2 y\<rfloor>")
  case True
  define q where "q = 2 powr (of_int \<lfloor>log 2 x\<rfloor> - real p + 1)"
  have q: "0 < q" unfolding q_def by simp
  have "round_even (x / q) \<le> round_even (y / q)"
    using assms q by (intro round_even_mono divide_right_mono) simp_all
  then have "of_int (round_even (x / q)) * q \<le> of_int (round_even (y / q)) * q"
    using q by simp
  then show ?thesis
    using assms True by (simp add: round_to_def Let_def q_def)
next
  case False
  have "log 2 x \<le> log 2 y" using assms by simp
  then have "\<lfloor>log 2 x\<rfloor> + 1 \<le> \<lfloor>log 2 y\<rfloor>"
    using False floor_mono [of "log 2 x" "log 2 y"] by linarith
  then have "real_of_int (\<lfloor>log 2 x\<rfloor> + 1) \<le> of_int \<lfloor>log 2 y\<rfloor>"
    by (simp only: of_int_le_iff)
  then have "(2::real) powr (of_int \<lfloor>log 2 x\<rfloor> + 1) \<le> 2 powr (of_int \<lfloor>log 2 y\<rfloor>)"
    by (intro powr_mono) simp_all
  then show ?thesis
    using round_to_pos_bounds(2) [of x p] round_to_pos_bounds(1) [of y p] assms by linarith
qed

lemma round_to_mono:
  assumes "x \<le> y" "0 < p"
  shows "round_to p x \<le> round_to p y"
proof -
  consider "0 < x" | "x \<le> 0" "0 \<le> y" | "y < 0" by linarith
  then show ?thesis
  proof cases
    case 1
    then show ?thesis using assms by (intro round_to_mono_pos) simp_all
  next
    case 2
    have "round_to p x \<le> 0"
    proof (cases "x = 0")
      case True then show ?thesis by (simp add: round_to_def)
    next
      case False
      then have "0 < round_to p (- x)" using 2 assms by (intro round_to_pos) simp_all
      then show ?thesis by (simp add: round_to_minus)
    qed
    moreover have "0 \<le> round_to p y"
    proof (cases "y = 0")
      case True then show ?thesis by (simp add: round_to_def)
    next
      case False
      then have "0 < round_to p y" using 2 assms by (intro round_to_pos) simp_all
      then show ?thesis by simp
    qed
    ultimately show ?thesis by simp
  next
    case 3
    then have "round_to p (- y) \<le> round_to p (- x)"
      using assms by (intro round_to_mono_pos) simp_all
    then show ?thesis by (simp add: round_to_minus)
  qed
qed

lemma round_to_idem:
  assumes "0 < p"
  shows "round_to p (round_to p x) = round_to p x"
proof -
  have pos: "round_to p (round_to p x) = round_to p x" if x: "0 < x" for x
  proof -
    define e where "e = \<lfloor>log 2 x\<rfloor>"
    define q where "q = 2 powr (of_int e - real p + 1)"
    define m where "m = round_even (x / q)"
    have q: "0 < q" unfolding q_def by simp
    have r: "round_to p x = of_int m * q"
      using x by (simp add: round_to_def Let_def e_def q_def m_def)
    have bl: "2 powr (of_int e) \<le> of_int m * q" and bu: "of_int m * q \<le> 2 powr (of_int e + 1)"
      using round_to_pos_bounds [OF x assms] unfolding e_def [symmetric] r by simp_all
    show ?thesis
    proof (cases "of_int m * q < 2 powr (of_int e + 1)")
      case True
      have ab: "\<bar>of_int m * q\<bar> = of_int m * q"
        using bl powr_gt_zero [of 2 "of_int e"] by linarith
      have "round_to p (of_int m * q) = of_int (round_even (of_int m * q / q)) * q"
        using round_to_binade [of e "of_int m * q" p] bl True
        unfolding ab q_def [symmetric] by blast
      then show ?thesis unfolding r using q by simp
    next
      case False
      then have eq: "of_int m * q = 2 powr (of_int (e + 1))" using bu by simp
      have q2: "2 powr (of_int (e + 1) - real p + 1) = 2 * q"
        unfolding q_def by (simp add: powr_add powr_diff)
      have "(2::real) powr (of_int (e + 1)) < 2 powr (of_int (e + 1) + 1)"
        by (intro powr_less_mono) simp_all
      then have "round_to p (2 powr (of_int (e + 1)))
          = of_int (round_even (2 powr (of_int (e + 1)) / (2 * q))) * (2 * q)"
        using round_to_binade [of "e + 1" "2 powr (of_int (e + 1))" p] unfolding q2 by simp
      then have "round_to p (of_int m * q)
          = of_int (round_even (of_int m * q / (2 * q))) * (2 * q)"
        unfolding eq .
      moreover have "even m"
      proof -
        have "real_of_int m = 2 powr (of_int (e + 1)) / q" using eq q by (simp add: field_simps)
        also have "\<dots> = 2 powr real p"
          unfolding q_def by (simp add: powr_diff [symmetric] algebra_simps)
        also have "\<dots> = of_int (2 ^ p)" by (simp add: powr_realpow)
        finally have "m = 2 ^ p" by linarith
        then show ?thesis using assms by simp
      qed
      then obtain k where k: "m = 2 * k" by (elim evenE)
      ultimately show ?thesis unfolding r k using q by simp
    qed
  qed
  consider "0 < x" | "x = 0" | "x < 0" by linarith
  then show ?thesis
  proof cases
    case 1 then show ?thesis by (rule pos)
  next
    case 2 then show ?thesis by (simp add: round_to_def)
  next
    case 3
    then have "round_to p (round_to p (- x)) = round_to p (- x)" by (intro pos) simp
    then show ?thesis by (simp add: round_to_minus)
  qed
qed

lemma round_to_int:
  assumes "\<bar>k\<bar> < 2 ^ p"
  shows "round_to p (of_int k) = of_int k"
proof (cases "k = 0")
  case True
  then show ?thesis by (simp add: round_to_def)
next
  case False
  define e where "e = \<lfloor>log 2 \<bar>real_of_int k\<bar>\<rfloor>"
  have k1: "1 \<le> \<bar>real_of_int k\<bar>" using False by (simp flip: of_int_abs)
  have b: "2 powr (of_int e) \<le> \<bar>real_of_int k\<bar>" "\<bar>real_of_int k\<bar> < 2 powr (of_int e + 1)"
    using floor_log_eq_powr_iff [of "\<bar>real_of_int k\<bar>" 2 e] k1 e_def by simp_all
  have e0: "0 \<le> e"
    unfolding e_def using k1 by simp
  have kp: "\<bar>real_of_int k\<bar> < 2 ^ p"
    using assms by (metis of_int_abs of_int_less_iff of_int_numeral of_int_power)
  have ep: "e < int p"
  proof (rule ccontr)
    assume "\<not> e < int p"
    then have "real p \<le> of_int e" by simp
    then have "(2::real) powr (real p) \<le> 2 powr (of_int e)" by (intro powr_mono) simp_all
    then show False using b(1) kp by (simp add: powr_realpow)
  qed
  define n where "n = nat (int p - 1 - e)"
  have n: "of_int e - real p + 1 = - real n"
    unfolding n_def using ep by simp
  have q: "2 powr (of_int e - real p + 1) = 1 / 2 ^ n"
    unfolding n by (simp add: powr_minus_divide powr_realpow)
  have "real_of_int k / (1 / 2 ^ n) = of_int (k * 2 ^ n)" by simp
  then have "round_even (real_of_int k / (1 / 2 ^ n)) = k * 2 ^ n"
    by (simp only: round_even_int)
  then show ?thesis
    using False by (simp add: round_to_def Let_def e_def [symmetric] q)
qed

text \<open>evaluation in binades below 1 and above 1\<close>

lemma fl32_below_one:
  assumes "1 / 2 ^ n \<le> \<bar>x\<bar>" "\<bar>x\<bar> < 2 / 2 ^ n"
  shows "fl32 x = of_int (round_even (x * 2 ^ (n + 23))) / 2 ^ (n + 23)"
proof -
  have a: "(2::real) powr (of_int (- int n)) = 1 / 2 ^ n"
    by (simp add: powr_minus_divide powr_realpow)
  have b: "(2::real) powr (of_int (- int n) + 1) = 2 / 2 ^ n"
    by (simp add: powr_diff powr_realpow)
  have c: "(2::real) powr (of_int (- int n) - real 24 + 1) = 1 / 2 ^ (n + 23)"
  proof -
    have "(of_int (- int n) - real 24 + 1 :: real) = - real (n + 23)" by simp
    then show ?thesis by (simp only: powr_minus_divide powr_realpow)
  qed
  show ?thesis
    unfolding fl32_def
    using round_to_binade [of "- int n" x 24] assms unfolding a b c by simp
qed

lemma fl32_above_one:
  assumes "2 ^ n \<le> \<bar>x\<bar>" "\<bar>x\<bar> < 2 * 2 ^ n" "n \<le> 23"
  shows "fl32 x = of_int (round_even (x * 2 ^ (23 - n))) / 2 ^ (23 - n)"
proof -
  have a: "(2::real) powr (of_int (int n)) = 2 ^ n"
    by (simp add: powr_realpow)
  have b: "(2::real) powr (of_int (int n) + 1) = 2 * 2 ^ n"
    by (simp add: powr_add powr_realpow)
  have c: "(2::real) powr (of_int (int n) - real 24 + 1) = 1 / 2 ^ (23 - n)"
  proof -
    have "(of_int (int n) - real 24 + 1 :: real) = - real (23 - n)" using assms(3) by simp
    then show ?thesis by (simp only: powr_minus_divide powr_realpow)
  qed
  show ?thesis
    unfolding fl32_def
    using round_to_binade [of "int n" x 24] assms(1,2) unfolding a b c by simp
qed

lemma fl32_consts:
  "fl32 0 = 0" "fl32 1 = 1" "fl32 (1 / 2) = 1 / 2" "fl32 (3 / 2) = 3 / 2"
  "fl32 (99 / 100) = 16609444 / 16777216"
  using fl32_above_one [of 0 1] fl32_below_one [of 1 "1 / 2"] fl32_above_one [of 0 "3 / 2"]
    fl32_below_one [of 1 "99 / 100"]
  by (simp_all add: round_even_def fl32_def round_to_def)

lemma round_to_0 [simp]: "round_to p 0 = 0"
  by (simp add: round_to_def)

lemma fl32_0 [simp]: "fl32 0 = 0"
  by (simp add: fl32_def)

lemma fl64_0 [simp]: "fl64 0 = 0"
  by (simp add: fl64_def)

lemma fl32_error: "\<bar>fl32 x - x\<bar> \<le> \<bar>x\<bar> / 16777216"
  using round_to_error [of 24 x] by (simp add: fl32_def)

lemma fl64_error: "\<bar>fl64 x - x\<bar> \<le> \<bar>x\<bar> / 9007199254740992"
  using round_to_error [of 53 x] by (simp add: fl64_def)

lemma fl32_mono: "x \<le> y \<Longrightarrow> fl32 x \<le> fl32 y"
  by (simp add: fl32_def round_to_mono)

lemma fl64_mono: "x \<le> y \<Longrightarrow> fl64 x \<le> fl64 y"
  by (simp add: fl64_def round_to_mono)

lemma fl32_idem [simp]: "fl32 (fl32 x) = fl32 x"
  by (simp add: fl32_def round_to_idem)

lemma fl32_minus: "fl32 (- x) = - fl32 x"
  by (simp add: fl32_def round_to_minus)

lemma fl32_int: "\<bar>k\<bar> < 16777216 \<Longrightarrow> fl32 (of_int k) = of_int k"
  using round_to_int [of k 24] by (simp add: fl32_def)

lemma fl64_int: "\<bar>k\<bar> < 9007199254740992 \<Longrightarrow> fl64 (of_int k) = of_int k"
  using round_to_int [of k 53] by (simp add: fl64_def)

lemma fl64_nat: "n < 9007199254740992 \<Longrightarrow> fl64 (real n) = real n"
  using fl64_int [of "int n"] by simp

lemma fl32_nonneg: "0 \<le> x \<Longrightarrow> 0 \<le> fl32 x"
  using fl32_mono [of 0 x] by simp

lemma fl32_nonpos: "x \<le> 0 \<Longrightarrow> fl32 x \<le> 0"
  using fl32_mono [of x 0] by simp

lemma fl32_1 [simp]: "fl32 1 = 1"
  using fl32_int [of 1] by simp


lemma fl32_abs: "fl32 \<bar>x\<bar> = \<bar>fl32 x\<bar>"
  using fl32_nonneg [of x] fl32_nonpos [of x] by (auto simp: abs_if fl32_minus)

lemma round_to_scale: "round_to p (x / 2 ^ n) = round_to p x / 2 ^ n"
proof (cases "x = 0")
  case True
  then show ?thesis by simp
next
  case False
  have l: "log 2 \<bar>x / 2 ^ n\<bar> = log 2 \<bar>x\<bar> - real n"
    using False by (simp add: abs_divide log_divide log_nat_power)
  have f: "\<lfloor>log 2 \<bar>x / 2 ^ n\<bar>\<rfloor> = \<lfloor>log 2 \<bar>x\<bar>\<rfloor> - int n"
    unfolding l by (metis floor_diff_of_int of_int_of_nat_eq)
  define e where "e = of_int \<lfloor>log 2 \<bar>x\<bar>\<rfloor> - real p + 1"
  have q: "2 powr (of_int \<lfloor>log 2 \<bar>x / 2 ^ n\<bar>\<rfloor> - real p + 1) = 2 powr e / 2 ^ n"
    unfolding f e_def
    by (simp add: powr_diff powr_add powr_realpow algebra_simps)
  have nz: "x / 2 ^ n \<noteq> 0" using False by simp
  have "round_to p (x / 2 ^ n) = of_int (round_even ((x / 2 ^ n) / (2 powr e / 2 ^ n))) * (2 powr e / 2 ^ n)"
    using nz unfolding round_to_def Let_def q by simp
  also have "(x / 2 ^ n) / (2 powr e / 2 ^ n) = x / 2 powr e"
    by simp
  also have "of_int (round_even (x / 2 powr e)) * (2 powr e / 2 ^ n) = round_to p x / 2 ^ n"
    using False unfolding round_to_def Let_def e_def by simp
  finally show ?thesis .
qed

lemma fl32_dyadic: "\<bar>k\<bar> < 16777216 \<Longrightarrow> fl32 (of_int k / 2 ^ n) = of_int k / 2 ^ n"
  using round_to_scale [of 24 "of_int k" n] fl32_int [of k] by (simp add: fl32_def)

lemma fl32_half [simp]: "fl32 (1 / 2) = 1 / 2"
  using fl32_dyadic [of 1 1] by simp

lemma fl32_numeral_small:
  "fl32 32767 = 32767" "fl32 (65535 / 2) = 65535 / 2" "fl32 (3 / 2) = 3 / 2"
  using fl32_int [of 32767] fl32_dyadic [of 65535 1] fl32_dyadic [of 3 1] by simp_all

lemma fl32_099: "fl32 0.99 = 16609444 / 16777216" "fl32 (99 / 100) = 16609444 / 16777216"
  using fl32_below_one [of 1 "99 / 100"] by (simp_all add: round_even_def)

lemma oneMicro_val: "oneMicro = 8796093 / 8796093022208"
  unfolding oneMicro_def using fl32_below_one [of 20 "1 / 1000000"] by (simp add: round_even_def)

lemma oneMicro_pos: "0 < oneMicro" "oneMicro < 1 / 1000000" "oneMicro \<le> 1 / 4"
  by (simp_all add: oneMicro_val)

section \<open>Properties of the signal chain\<close>

lemma abs_err_lt: "\<bar>a - v\<bar> \<le> e \<Longrightarrow> e < d \<Longrightarrow> v + d \<le> k \<Longrightarrow> a < k" for a :: real
  by linarith

lemma floor_fl64_div:
  assumes "m < 9007199254740992" "0 < r"
  shows "\<lfloor>fl64 (real m / real r)\<rfloor> = int (m div r)"
proof -
  let ?v = "real m / real r"
  let ?k = "m div r"
  have kv: "real ?k \<le> ?v"
    using assms(2) by (simp add: pos_le_divide_eq flip: of_nat_mult)
  have "m < (?k + 1) * r"
    using assms(2) by (metis Suc_eq_plus1 dividend_less_times_div mult.commute add.commute mult_Suc)
  then have "m + 1 \<le> (?k + 1) * r" by simp
  then have "real m + 1 \<le> (real ?k + 1) * real r"
    by (metis of_nat_1 of_nat_add of_nat_le_iff of_nat_mult)
  then have vk: "?v + 1 / real r \<le> real ?k + 1"
    using assms(2) by (simp add: field_simps)
  have "?k < 9007199254740992" using assms(1) div_le_dividend [of m r] by linarith
  then have "fl64 (real ?k) = real ?k" by (rule fl64_nat)
  with fl64_mono [OF kv] have lo: "real ?k \<le> fl64 ?v" by simp
  have "\<bar>fl64 ?v - ?v\<bar> \<le> \<bar>?v\<bar> / 9007199254740992" by (rule fl64_error)
  moreover have "\<bar>?v\<bar> / 9007199254740992 < 1 / real r"
    using assms by (simp add: field_simps)
  ultimately have hi: "fl64 ?v < real ?k + 1" using vk by (rule abs_err_lt)
  show ?thesis
    using lo hi by (intro floor_unique) simp_all
qed

lemma outLen_div:
  assumes "0 < inRate" "n * 16000 < 9007199254740992"
  shows "outLen n inRate = max 1 (n * 16000 div inRate)"
proof -
  have "fl64 (real n * real outRate) = real (n * 16000)"
    using fl64_nat [OF assms(2)] by (simp add: outRate_def)
  then have "\<lfloor>fl64 (fl64 (real n * real outRate) / real inRate)\<rfloor> = int (n * 16000 div inRate)"
    using floor_fl64_div [OF assms(2,1)] by simp
  then show ?thesis
    by (simp add: outLen_def Let_def max_def)
qed

lemma round_floor_near: "\<lfloor>x\<rfloor> \<le> round (x::real) \<and> round x \<le> \<lfloor>x\<rfloor> + 1"
  unfolding round_def by linarith

lemma outLen_near_spec:
  assumes "0 < inRate" "n * 16000 < 9007199254740992"
  shows "spec_outLen n inRate - 1 \<le> int (outLen n inRate) \<and> int (outLen n inRate) \<le> spec_outLen n inRate"
proof -
  define x where "x = real n * 16000 / real inRate"
  have fl: "\<lfloor>x\<rfloor> = int (n * 16000 div inRate)"
    unfolding x_def using floor_divide_of_nat_eq [of "n * 16000" inRate] by simp
  have len: "int (outLen n inRate) = max 1 \<lfloor>x\<rfloor>"
    using assms by (simp only: outLen_div fl)
  have sp: "spec_outLen n inRate = max 1 (round x)"
    by (simp only: spec_outLen_def x_def)
  show ?thesis
    using round_floor_near [of x] unfolding len sp by linarith
qed

text \<open>
  C2, amended: for every non-empty mono buffer of \<open>N\<close> samples at an input rate \<open>R > 0\<close> the
  resampling step returns exactly \<open>\<lfloor>N * 16000 / R\<rfloor>\<close> samples, at least one; that is the
  specification's rounded length or one less. The product \<open>N * 16000\<close> is below \<open>2\<^sup>5\<^sup>3\<close>, as
  it is for every 32-bit frame count, so that the \<^verbatim>\<open>double\<close> product is exact; the rounding of
  the \<^verbatim>\<open>double\<close> quotient never reaches the next integer.
\<close>

theorem C2_resample_length:
  assumes "monoBuf \<noteq> []" and "0 < inRate" and "length monoBuf * 16000 < 2 ^ 53"
  shows "\<exists>out. resample inRate monoBuf = Some out
           \<and> length out = max 1 (length monoBuf * 16000 div inRate)
           \<and> spec_outLen (length monoBuf) inRate - 1 \<le> int (length out)
           \<and> int (length out) \<le> spec_outLen (length monoBuf) inRate"
  using assms outLen_near_spec [of inRate "length monoBuf"]
  by (simp add: resample_def outLen_div)

theorem C2_resample_length_witness:
  "\<exists>out. resample 48000 [0, 0, 0, 0, 0] = Some out \<and> length out = 1"
  using C2_resample_length [of "[0, 0, 0, 0, 0]" 48000] by auto

text \<open>
  C2, as the specification states it: a buffer of \<open>N\<close> samples at rate \<open>R\<close> is resampled to
  \<open>round (N * 16000 / R)\<close> samples, at least one. The source truncates instead of rounding:
  five samples at 48 kHz give one output sample, where the rounded quotient \<open>5 / 3\<close> is two.
\<close>

theorem C2_round_counterexample:
  "resample 48000 [0, 0, 0, 0, 0] = Some [0] \<and> spec_outLen (length [0, 0, 0, 0, 0 :: float]) 48000 = 2"
proof -
  have "outLen 5 48000 = 1"
    using outLen_div [of 48000 5] by simp
  then have "outLen (length [0, 0, 0, 0, 0 :: float]) 48000 = 1"
    by (simp add: eval_nat_numeral)
  then have a: "resample 48000 [0, 0, 0, 0, 0] = Some [0]"
    by (simp add: resample_def resample_at_def del: list.size)
  have b: "spec_outLen (length [0, 0, 0, 0, 0 :: float]) 48000 = 2"
    by (simp add: spec_outLen_def round_def)
  show ?thesis using a b ..
qed


lemma fl32_upper: "0 \<le> x \<Longrightarrow> fl32 x \<le> x + x / 16777216"
  using fl32_error [of x] by argo












lemma oneMicro_float [simp]: "fl32 oneMicro = oneMicro"
  by (simp add: oneMicro_def)

lemma hpf_process_float [simp]: "fl32 (fst (hpf_process h x)) = fst (hpf_process h x)"
  by (simp add: hpf_process_def Let_def)

lemma follow_envelope_float [simp]: "fl32 (follow_envelope s x) = follow_envelope s x"
  by (simp add: follow_envelope_def Let_def)






















lemma peak_step_max:
  "(let av2 = (if v < 0 then - v else v) in if av2 > peak then av2 else peak) = max peak \<bar>v\<bar>"
  for v peak :: real
  by (simp add: Let_def max_def abs_if)

lemma foldl_peak_ge:
  "p \<le> foldl (\<lambda>peak v. max peak \<bar>v\<bar>) p xs \<and> (\<forall>v\<in>set xs. \<bar>v\<bar> \<le> foldl (\<lambda>peak v. max peak \<bar>v\<bar>) p xs)"
  for p :: real
proof (induction xs arbitrary: p)
  case Nil
  then show ?case by simp
next
  case (Cons x xs)
  from Cons.IH [of "max p \<bar>x\<bar>"] show ?case by auto
qed

lemma foldl_peak_attained:
  "foldl (\<lambda>peak v. max peak \<bar>v\<bar>) p xs = p \<or> (\<exists>v\<in>set xs. foldl (\<lambda>peak v. max peak \<bar>v\<bar>) p xs = \<bar>v\<bar>)"
  for p :: real
proof (induction xs arbitrary: p)
  case Nil
  then show ?case by simp
next
  case (Cons x xs)
  from Cons.IH [of "max p \<bar>x\<bar>"] show ?case by (auto simp: max_def split: if_splits)
qed

lemma peak_of_alt: "peak_of xs = foldl (\<lambda>peak v. max peak \<bar>v\<bar>) 0 xs"
  unfolding peak_of_def peak_step_max ..

lemma peak_of_bounds: "0 \<le> peak_of xs" "v \<in> set xs \<Longrightarrow> \<bar>v\<bar> \<le> peak_of xs"
  using foldl_peak_ge [of 0 xs] by (simp_all add: peak_of_alt)

lemma peak_of_attained: "xs \<noteq> [] \<Longrightarrow> \<exists>v\<in>set xs. peak_of xs = \<bar>v\<bar>"
proof -
  assume ne: "xs \<noteq> []"
  from foldl_peak_attained [of 0 xs] show ?thesis
  proof
    assume z: "foldl (\<lambda>peak v. max peak \<bar>v\<bar>) 0 xs = 0"
    from ne obtain v where v: "v \<in> set xs" by (cases xs) auto
    with peak_of_bounds(2) [OF v] z have "\<bar>v\<bar> = 0" by (simp add: peak_of_alt)
    with v z show ?thesis by (auto simp: peak_of_alt)
  next
    assume "\<exists>v\<in>set xs. foldl (\<lambda>peak v. max peak \<bar>v\<bar>) 0 xs = \<bar>v\<bar>"
    then show ?thesis by (simp add: peak_of_alt)
  qed
qed

text \<open>The limiting branch: the rounded quotient times the peak.\<close>

lemma limited_product:
  assumes "0 < p"
  shows "\<bar>p * fl32 (fl32 0.99 / p) - 99 / 100\<bar> \<le> 1 / 10000000"
    and "p * fl32 (fl32 0.99 / p) \<le> 16609445 / 16777216"
    and "0 \<le> fl32 (fl32 0.99 / p)"
proof -
  define c :: real where "c = 16609444 / 16777216"
  define g where "g = fl32 (c / p)"
  have cp: "0 \<le> c / p" using assms by (simp add: c_def)
  have "\<bar>g - c / p\<bar> \<le> \<bar>c / p\<bar> / 16777216"
    unfolding g_def by (rule fl32_error)
  then have "\<bar>g - c / p\<bar> * p \<le> (c / p) / 16777216 * p"
    using cp assms by (intro mult_right_mono) simp_all
  moreover have "\<bar>g - c / p\<bar> * p = \<bar>p * g - c\<bar>"
  proof -
    have "\<bar>g - c / p\<bar> * p = \<bar>g - c / p\<bar> * \<bar>p\<bar>" using assms by simp
    also have "\<dots> = \<bar>(g - c / p) * p\<bar>" by (simp add: abs_mult)
    also have "(g - c / p) * p = p * g - c" using assms by (simp add: field_simps)
    finally show ?thesis .
  qed
  moreover have "(c / p) / 16777216 * p = c / 16777216" using assms by simp
  ultimately have e: "\<bar>p * g - c\<bar> \<le> c / 16777216" by simp
  have g0: "0 \<le> g" unfolding g_def using cp by (rule fl32_nonneg)
  have gg: "fl32 (fl32 0.99 / p) = g"
    unfolding g_def c_def fl32_099 ..
  have cb: "99 / 100 \<le> c" "c \<le> 99 / 100 + 1 / 100000000" "c / 16777216 \<le> 6 / 100000000"
    "c + c / 16777216 \<le> 16609445 / 16777216"
    by (simp_all add: c_def)
  show "\<bar>p * fl32 (fl32 0.99 / p) - 99 / 100\<bar> \<le> 1 / 10000000"
    unfolding gg using e cb by linarith
  show "p * fl32 (fl32 0.99 / p) \<le> 16609445 / 16777216"
    unfolding gg using e cb by linarith
  show "0 \<le> fl32 (fl32 0.99 / p)"
    unfolding gg by (rule g0)
qed

lemma fl32_limit: "fl32 (16609445 / 16777216) = 16609445 / 16777216"
  using fl32_dyadic [of 16609445 24] by simp

lemma boost_gain_nonneg: "0 \<le> peak \<Longrightarrow> 0 \<le> boost_gain peak"
  using limited_product(3) [of peak] oneMicro_pos(1)
  by (auto simp: boost_gain_def kVoiceBoost_def)

lemma boosted_peak_bound:
  assumes "0 \<le> peak"
  shows "fl32 (peak * boost_gain peak) \<le> 16609445 / 16777216"
proof -
  consider (quiet) "peak < oneMicro"
    | (limit) "oneMicro \<le> peak" "fl32 (peak * 3 / 2) > fl32 0.99"
    | (plain) "oneMicro \<le> peak" "\<not> fl32 (peak * 3 / 2) > fl32 0.99"
    by fastforce
  then show ?thesis
  proof cases
    case quiet
    then have "peak * 3 / 2 \<le> 1 / 2" using oneMicro_pos(3) by simp
    then have "fl32 (peak * 3 / 2) \<le> 1 / 2" using fl32_mono [of "peak * 3 / 2" "1 / 2"] by simp
    then show ?thesis using quiet by (simp add: boost_gain_def kVoiceBoost_def)
  next
    case limit
    then have p: "0 < peak" using oneMicro_pos(1) by simp
    have "fl32 (peak * fl32 (fl32 0.99 / peak)) \<le> fl32 (16609445 / 16777216)"
      using limited_product(2) [OF p] by (rule fl32_mono)
    then show ?thesis using limit by (simp add: boost_gain_def kVoiceBoost_def fl32_limit)
  next
    case plain
    then show ?thesis by (simp add: boost_gain_def kVoiceBoost_def fl32_099)
  qed
qed

lemma boosted_sample_bound:
  assumes "v \<in> set buf"
  shows "\<bar>fl32 (v * boost_gain (peak_of buf))\<bar> \<le> 16609445 / 16777216"
proof -
  let ?p = "peak_of buf"
  have p0: "0 \<le> ?p" by (rule peak_of_bounds)
  have g0: "0 \<le> boost_gain ?p" using p0 by (rule boost_gain_nonneg)
  have "\<bar>v * boost_gain ?p\<bar> = \<bar>v\<bar> * boost_gain ?p"
    using g0 by (simp add: abs_mult)
  also have "\<dots> \<le> ?p * boost_gain ?p"
    using peak_of_bounds(2) [OF assms] g0 by (rule mult_right_mono)
  finally have "fl32 \<bar>v * boost_gain ?p\<bar> \<le> fl32 (?p * boost_gain ?p)"
    by (rule fl32_mono)
  then show ?thesis
    using boosted_peak_bound [OF p0] by (simp add: fl32_abs)
qed

text \<open>
  C8, amended: for every gated buffer the boost step takes the largest absolute sample as
  peak (0 for an empty buffer); below \<^verbatim>\<open>1e-6f\<close> the gain is the nominal 1.5; otherwise, when
  the rounded product \<^verbatim>\<open>peak * 1.5f\<close> exceeds \<^verbatim>\<open>0.99f\<close>, the gain is the rounded quotient
  \<^verbatim>\<open>0.99f / peak\<close> and \<open>peak * gain\<close> is within \<open>10\<^sup>-\<^sup>7\<close> of 0.99; otherwise the gain is 1.5.
  In every case no boosted sample exceeds \<open>16609445 / 2\<^sup>2\<^sup>4\<close> in magnitude, one unit in the
  last place above \<^verbatim>\<open>0.99f\<close>, so the clamp to \<open>[-1, 1]\<close> that follows never changes a sample.
\<close>

theorem C8_boost_gain_limits_peak:
  "(\<forall>v\<in>set buf. \<bar>v\<bar> \<le> peak_of buf)
   \<and> (buf \<noteq> [] \<longrightarrow> (\<exists>v\<in>set buf. peak_of buf = \<bar>v\<bar>))
   \<and> (peak_of buf < oneMicro \<longrightarrow> boost_gain (peak_of buf) = 3 / 2)
   \<and> (oneMicro \<le> peak_of buf \<and> fl32 (peak_of buf * 3 / 2) > fl32 0.99 \<longrightarrow>
        boost_gain (peak_of buf) = fl32 (fl32 0.99 / peak_of buf)
        \<and> \<bar>peak_of buf * boost_gain (peak_of buf) - 99 / 100\<bar> \<le> 1 / 10000000)
   \<and> (oneMicro \<le> peak_of buf \<and> \<not> fl32 (peak_of buf * 3 / 2) > fl32 0.99 \<longrightarrow>
        boost_gain (peak_of buf) = 3 / 2)
   \<and> (\<forall>v\<in>set buf. \<bar>fl32 (v * boost_gain (peak_of buf))\<bar> \<le> 16609445 / 16777216
        \<and> clamp_unit (fl32 (v * boost_gain (peak_of buf))) = fl32 (v * boost_gain (peak_of buf)))"
proof -
  let ?p = "peak_of buf"
  have a: "\<forall>v\<in>set buf. \<bar>v\<bar> \<le> ?p" using peak_of_bounds(2) [of _ buf] by blast
  have b: "buf \<noteq> [] \<longrightarrow> (\<exists>v\<in>set buf. ?p = \<bar>v\<bar>)" using peak_of_attained [of buf] by blast
  have c: "?p < oneMicro \<longrightarrow> boost_gain ?p = 3 / 2"
    by (simp add: boost_gain_def kVoiceBoost_def)
  have d: "oneMicro \<le> ?p \<and> fl32 (?p * 3 / 2) > fl32 0.99 \<longrightarrow>
        boost_gain ?p = fl32 (fl32 0.99 / ?p)
        \<and> \<bar>?p * boost_gain ?p - 99 / 100\<bar> \<le> 1 / 10000000"
  proof
    assume h: "oneMicro \<le> ?p \<and> fl32 (?p * 3 / 2) > fl32 0.99"
    then have p: "0 < ?p" using oneMicro_pos(1) by simp
    have g: "boost_gain ?p = fl32 (fl32 0.99 / ?p)"
      using h by (simp add: boost_gain_def kVoiceBoost_def)
    show "boost_gain ?p = fl32 (fl32 0.99 / ?p)
        \<and> \<bar>?p * boost_gain ?p - 99 / 100\<bar> \<le> 1 / 10000000"
      unfolding g using limited_product(1) [OF p] by simp
  qed
  have e: "oneMicro \<le> ?p \<and> \<not> fl32 (?p * 3 / 2) > fl32 0.99 \<longrightarrow> boost_gain ?p = 3 / 2"
    by (simp add: boost_gain_def kVoiceBoost_def)
  have f: "\<forall>v\<in>set buf. \<bar>fl32 (v * boost_gain ?p)\<bar> \<le> 16609445 / 16777216
        \<and> clamp_unit (fl32 (v * boost_gain ?p)) = fl32 (v * boost_gain ?p)"
  proof
    fix v assume "v \<in> set buf"
    from boosted_sample_bound [OF this]
    show "\<bar>fl32 (v * boost_gain ?p)\<bar> \<le> 16609445 / 16777216
        \<and> clamp_unit (fl32 (v * boost_gain ?p)) = fl32 (v * boost_gain ?p)"
      by (auto simp: clamp_unit_def)
  qed
  show ?thesis using a b c d e f by blast
qed

theorem C8_boost_gain_limits_peak_witness:
  "peak_of [1 / 2, - 1] = 1 \<and> oneMicro \<le> peak_of [1 / 2, - 1]
   \<and> fl32 (peak_of [1 / 2, - 1] * 3 / 2) > fl32 0.99
   \<and> boost_gain (peak_of [1 / 2, - 1]) = 16609444 / 16777216
   \<and> peak_of [1 / 10] = 1 / 10 \<and> oneMicro \<le> peak_of [1 / 10]
   \<and> \<not> fl32 (peak_of [1 / 10] * 3 / 2) > fl32 0.99
   \<and> boost_gain (peak_of [1 / 10]) = 3 / 2
   \<and> peak_of [0] = 0 \<and> peak_of [0] < oneMicro \<and> boost_gain (peak_of [0]) = 3 / 2"
proof -
  have p: "peak_of [1 / 2, - 1] = 1" "peak_of [1 / 10] = 1 / 10" "peak_of [0] = 0"
    by (simp_all add: peak_of_def)
  have h1: "fl32 (1 * 3 / 2) > fl32 0.99"
    by (simp add: fl32_099 fl32_numeral_small)
  have "fl32 (1 / 10 * 3 / 2) \<le> fl32 (1 / 2)" by (intro fl32_mono) simp
  then have h2: "\<not> fl32 (1 / 10 * 3 / 2) > fl32 0.99"
    by (simp add: fl32_099)
  have h3: "oneMicro \<le> 1" "oneMicro \<le> 1 / 10" "0 < oneMicro"
    by (simp_all add: oneMicro_val)
  have i: "fl32 (fl32 0.99 / 1) = 16609444 / 16777216"
    by (simp only: div_by_1 fl32_idem, rule fl32_099(1))
  note a = C8_boost_gain_limits_peak [of "[1 / 2, - 1]", unfolded p]
  note b = C8_boost_gain_limits_peak [of "[1 / 10]", unfolded p]
  note c = C8_boost_gain_limits_peak [of "[0]", unfolded p]
  have "boost_gain 1 = 16609444 / 16777216"
    using a h1 h3 i by simp
  moreover have "boost_gain (1 / 10) = 3 / 2"
    using b h2 h3 by simp
  moreover have "boost_gain 0 = 3 / 2"
    using c h3 by simp
  ultimately show ?thesis
    unfolding p using h1 h2 h3 by simp
qed

text \<open>
  C8, as the specification states it: in the limiting case the gain is \<open>0.99 / peak\<close>,
  \<open>peak * gain\<close> is exactly 0.99 and no boosted sample exceeds 0.99. In binary32 the
  quotient \<^verbatim>\<open>0.99f / peak\<close> is rounded: for the peak \<open>16192286 / 2\<^sup>2\<^sup>4\<close> the gain is
  \<open>8604722 / 2\<^sup>2\<^sup>3\<close>, not the quotient, and the boosted peak sample is
  \<open>16609445 / 2\<^sup>2\<^sup>4\<close>, above 0.99 (and one unit in the last place above \<^verbatim>\<open>0.99f\<close>).
\<close>

theorem C8_limit_exceeded_counterexample:
  "peak_of [16192286 / 16777216] = 16192286 / 16777216
   \<and> fl32 (16192286 / 16777216) = 16192286 / 16777216
   \<and> \<not> peak_of [16192286 / 16777216] < oneMicro
   \<and> fl32 (peak_of [16192286 / 16777216] * kVoiceBoost) > fl32 0.99
   \<and> boost_gain (peak_of [16192286 / 16777216]) = 8604722 / 8388608
   \<and> boost_gain (peak_of [16192286 / 16777216]) \<noteq> fl32 0.99 / peak_of [16192286 / 16777216]
   \<and> peak_of [16192286 / 16777216] * boost_gain (peak_of [16192286 / 16777216]) > 99 / 100
   \<and> fl32 (16192286 / 16777216 * boost_gain (peak_of [16192286 / 16777216])) = 16609445 / 16777216
   \<and> (99 / 100 :: real) < 16609445 / 16777216"
proof -
  have p: "peak_of [16192286 / 16777216] = 16192286 / 16777216"
    by (simp add: peak_of_def)
  have x: "fl32 (16192286 / 16777216) = 16192286 / 16777216"
    using fl32_dyadic [of 16192286 24] by simp
  have "16192286 / 16777216 * kVoiceBoost = 24288429 / 16777216"
    by (simp add: kVoiceBoost_def)
  moreover have "fl32 (24288429 / 16777216) = 12144214 / 8388608"
    using fl32_above_one [of 0 "24288429 / 16777216"] by (simp add: round_even_def)
  ultimately have m: "fl32 (16192286 / 16777216 * kVoiceBoost) = 12144214 / 8388608"
    by (simp only:)
  have g: "fl32 ((16609444 / 16777216) / (16192286 / 16777216)) = 8604722 / 8388608"
    using fl32_above_one [of 0 "(16609444 / 16777216) / (16192286 / 16777216)"]
    by (simp add: round_even_def)
  have o: "\<not> (16192286 / 16777216 :: real) < oneMicro"
    by (simp add: oneMicro_val)
  have m': "fl32 (16192286 / 16777216 * kVoiceBoost) > fl32 0.99"
    unfolding m fl32_099 by simp
  have "boost_gain (16192286 / 16777216) = fl32 (fl32 0.99 / (16192286 / 16777216))"
    unfolding boost_gain_def by (simp only: o m' if_True if_False)
  also have "\<dots> = 8604722 / 8388608"
    unfolding fl32_099(1) by (rule g)
  finally have bg: "boost_gain (16192286 / 16777216) = 8604722 / 8388608" .
  have b: "fl32 (16192286 / 16777216 * (8604722 / 8388608)) = 16609445 / 16777216"
    using fl32_below_one [of 1 "16192286 / 16777216 * (8604722 / 8388608)"]
    by (simp add: round_even_def)
  have ne: "(8604722 / 8388608 :: real) \<noteq> (16609444 / 16777216) / (16192286 / 16777216)"
    by simp
  have gt: "(16192286 / 16777216 :: real) * (8604722 / 8388608) > 99 / 100"
    "(99 / 100 :: real) < 16609445 / 16777216"
    by simp_all
  show ?thesis
    unfolding p bg b using x o m' ne gt unfolding fl32_099 by blast
qed


lemma clamp_unit_id: "\<bar>x\<bar> \<le> 1 \<Longrightarrow> clamp_unit x = x"
  by (auto simp: clamp_unit_def)


lemma round_half_away_int [simp]: "round_half_away (of_int k) = k"
  by (simp add: round_half_away_def)














lemma fl32_quarter [simp]: "fl32 (1 / 4) = 1 / 4"
  using fl32_dyadic [of 1 2] by simp



lemma memcpy_at_length:
  "off + length src \<le> length buf \<Longrightarrow> length (memcpy_at off src buf) = length buf"
  by (simp add: memcpy_at_def)

lemma replicate_split44: "44 \<le> n \<Longrightarrow> replicate n (0::8 word) = replicate 44 0 @ replicate (n - 44) 0"
  by (metis le_add_diff_inverse replicate_add)

lemma le32_const: "le32 16 = [16,0,0,0]" "le32 16000 = [0x80, 0x3E, 0, 0]" "le32 32000 = [0x00, 0x7D, 0, 0]"
  by (simp_all add: le32_def)

lemma le16_const: "le16 1 = [1,0]" "le16 2 = [2,0]" "le16 16 = [16,0]"
  by (simp_all add: le16_def)

lemma header_write:
  assumes "length rest = n"
  shows "(let channels = (1 :: 16 word);
          sampleRate = (word_of_nat outRate :: 32 word);
          wavBuffer = replicate 44 (0 :: 8 word) @ rest;
          w1 = memcpy_at 0 (ascii ''RIFF'') wavBuffer;
          w2 = memcpy_at 4 (le32 totalSize) w1;
          w3 = memcpy_at 8 (ascii ''WAVE'') w2;
          w4 = memcpy_at 12 (ascii ''fmt '') w3;
          w5 = memcpy_at 16 (le32 16) w4;
          w6 = memcpy_at 20 (le16 1) w5;
          w7 = memcpy_at 22 (le16 channels) w6;
          w8 = memcpy_at 24 (le32 sampleRate) w7;
          w9 = memcpy_at 28 (le32 (sampleRate * ucast channels * 2)) w8;
          w10 = memcpy_at 32 (le16 (channels * 2)) w9;
          w11 = memcpy_at 34 (le16 16) w10;
          w12 = memcpy_at 36 (ascii ''data'') w11;
          w13 = memcpy_at 40 (le32 pcmDataSize) w12
      in memcpy_at 44 payload w13) = [0x52, 0x49, 0x46, 0x46] @ le32 totalSize @
     [0x57, 0x41, 0x56, 0x45, 0x66, 0x6D, 0x74, 0x20, 16, 0, 0, 0, 1, 0, 1, 0,
      0x80, 0x3E, 0, 0, 0x00, 0x7D, 0, 0, 2, 0, 16, 0, 0x64, 0x61, 0x74, 0x61] @ le32 pcmDataSize @ payload @ drop (length payload) rest"
  apply (simp add: Let_def outRate_def ascii_def le32_const le16_const)
  apply (simp add: memcpy_at_def le32_def)
  apply (simp add: eval_nat_numeral)
  done

lemma length_le16_concat: "length (concat (map le16 xs)) = 2 * length xs"
  by (induction xs) (simp_all add: le16_def)

lemma unat_pcm:
  assumes "length xs * 2 + 44 < 2 ^ 32"
  shows "unat (word_of_nat (length xs * 2) :: 32 word) = length xs * 2"
    and "unat (44 + word_of_nat (length xs * 2) :: 32 word) = 44 + length xs * 2"
    and "unat (36 + word_of_nat (length xs * 2) :: 32 word) = 36 + length xs * 2"
proof -
  have a: "length xs * 2 < 2 ^ 32" "44 + length xs * 2 < 2 ^ 32" "36 + length xs * 2 < 2 ^ 32"
    using assms by simp_all
  show "unat (word_of_nat (length xs * 2) :: 32 word) = length xs * 2"
    using a(1) by (intro of_nat_inverse) simp_all
  show "unat (44 + word_of_nat (length xs * 2) :: 32 word) = 44 + length xs * 2"
    using a(2) by (intro of_nat_inverse) simp_all
  show "unat (36 + word_of_nat (length xs * 2) :: 32 word) = 36 + length xs * 2"
    using a(3) by (intro of_nat_inverse) simp_all
qed

lemma wav_frame_eq:
  assumes "length int16Samples * 2 + 44 < 2 ^ 32"
  shows "wav_frame int16Samples =
           wav_header (word_of_nat (length int16Samples * 2)) @ concat (map le16 int16Samples)"
proof -
  let ?pcm = "word_of_nat (length int16Samples * 2) :: 32 word"
  let ?payload = "concat (map le16 int16Samples)"
  have n: "unat (44 + ?pcm) = 44 + length int16Samples * 2" and m: "unat ?pcm = length int16Samples * 2"
    using unat_pcm [OF assms] by simp_all
  have buf: "replicate (unat (44 + ?pcm)) (0::8 word) = replicate 44 0 @ replicate (length int16Samples * 2) 0"
    unfolding n by (simp add: replicate_add)
  have tk: "take (unat ?pcm) ?payload = ?payload"
    unfolding m by (simp add: length_le16_concat)
  have dr: "drop (length ?payload) (replicate (length int16Samples * 2) (0::8 word)) = []"
    by (simp add: length_le16_concat)
  note hw = header_write [unfolded Let_def, where rest = "replicate (length int16Samples * 2) 0"
      and n = "length int16Samples * 2" and totalSize = "36 + ?pcm" and pcmDataSize = ?pcm
      and payload = ?payload, unfolded dr, OF length_replicate]
  show ?thesis
    unfolding wav_frame_def Let_def buf tk hw wav_header_def
    by (simp only: append_Nil2 append.simps append_assoc)
qed

lemma nat_bytes4: "(x::nat) mod 256 + 256 * (x div 256 mod 256) + 65536 * (x div 65536 mod 256)
   + 16777216 * (x div 16777216) = x"
proof -
  have a: "x div 65536 = x div 256 div 256" "x div 16777216 = x div 256 div 256 div 256"
    by (simp_all add: div_mult2_eq [symmetric])
  show ?thesis unfolding a
    using div_mult_mod_eq [of x 256] div_mult_mod_eq [of "x div 256" 256] div_mult_mod_eq [of "x div 256 div 256" 256]
    by linarith
qed

lemma rd_le32_le32: "rd_le32 0 (le32 w @ rest) = unat w"
proof -
  have b: "unat w < 2 ^ 32" using unsigned_less [of w, where ?'a = nat] by simp
  have "unat (ucast w :: 8 word) = unat w mod 256"
    "unat (ucast (drop_bit 8 w) :: 8 word) = unat w div 256 mod 256"
    "unat (ucast (drop_bit 16 w) :: 8 word) = unat w div 65536 mod 256"
    "unat (ucast (drop_bit 24 w) :: 8 word) = unat w div 16777216 mod 256"
    by (simp_all only: unsigned_ucast_eq unat_drop_bit_eq) (simp_all add: drop_bit_eq_div take_bit_eq_mod)
  then show ?thesis
    using b nat_bytes4 [of "unat w"] by (simp add: rd_le32_def le32_def)
qed

lemma rd_le16_le16: "rd_le16 0 (le16 w @ rest) = unat w"
proof -
  have b: "unat w < 2 ^ 16" using unsigned_less [of w, where ?'a = nat] by simp
  have "unat (ucast w :: 8 word) = unat w mod 256"
    "unat (ucast (drop_bit 8 w) :: 8 word) = unat w div 256 mod 256"
    by (simp_all only: unsigned_ucast_eq unat_drop_bit_eq) (simp_all add: drop_bit_eq_div take_bit_eq_mod)
  then show ?thesis
    using b by (simp add: rd_le16_def le16_def)
qed

lemma rd_le32_drop: "rd_le32 off buf = rd_le32 0 (drop off buf)" if "off + 3 < length buf"
  using that by (simp add: rd_le32_def)

text \<open>
  C5: for every quantised payload whose frame fits a 32-bit size, the emitted frame is the
  44-byte header \<open>RIFF\<close>, total size \<open>36 + pcmDataSize\<close> (32 bits, little-endian), \<open>WAVE\<close>,
  \<open>fmt\<close> and a blank, chunk size 16, format tag 1, one channel, sample rate 16000, byte
  rate 32000, block align 2, 16 bits per sample, \<open>data\<close>, \<open>pcmDataSize\<close>, followed by the
  samples, low byte first. The witness is the frame of 16000 samples
  (\<open>pcmDataSize = 32000\<close>), whose total-size field reads 32036.
\<close>

theorem C5_wav_frame_layout:
  assumes "length int16Samples * 2 + 44 < 2 ^ 32"
  shows "wav_frame int16Samples =
           ascii ''RIFF'' @ le32 (36 + word_of_nat (length int16Samples * 2)) @
           ascii ''WAVE'' @ ascii ''fmt '' @ le32 16 @ le16 1 @ le16 1 @ le32 16000 @
           le32 32000 @ le16 2 @ le16 16 @ ascii ''data'' @
           le32 (word_of_nat (length int16Samples * 2)) @ concat (map le16 int16Samples)
         \<and> take 44 (wav_frame int16Samples) =
             [0x52, 0x49, 0x46, 0x46] @ le32 (36 + word_of_nat (length int16Samples * 2)) @
             [0x57, 0x41, 0x56, 0x45, 0x66, 0x6D, 0x74, 0x20, 16, 0, 0, 0, 1, 0, 1, 0,
              0x80, 0x3E, 0, 0, 0x00, 0x7D, 0, 0, 2, 0, 16, 0, 0x64, 0x61, 0x74, 0x61] @
             le32 (word_of_nat (length int16Samples * 2))
         \<and> drop 44 (wav_frame int16Samples) = concat (map le16 int16Samples)
         \<and> rd_le32 4 (wav_frame int16Samples) = 36 + length int16Samples * 2
         \<and> rd_le32 40 (wav_frame int16Samples) = length int16Samples * 2"
proof -
  let ?pcm = "word_of_nat (length int16Samples * 2) :: 32 word"
  note eq = wav_frame_eq [OF assms]
  have hl: "length (wav_header ?pcm) = 44"
    by (simp add: wav_header_def le32_def)
  have c1: "wav_frame int16Samples =
           ascii ''RIFF'' @ le32 (36 + ?pcm) @
           ascii ''WAVE'' @ ascii ''fmt '' @ le32 16 @ le16 1 @ le16 1 @ le32 16000 @
           le32 32000 @ le16 2 @ le16 16 @ ascii ''data'' @
           le32 ?pcm @ concat (map le16 int16Samples)"
    unfolding eq wav_header_def by (simp add: ascii_def le32_const le16_const)
  have c2: "take 44 (wav_frame int16Samples) = wav_header ?pcm"
    unfolding eq using hl by simp
  have c3: "drop 44 (wav_frame int16Samples) = concat (map le16 int16Samples)"
    unfolding eq using hl by simp
  have len: "length (wav_frame int16Samples) = 44 + length int16Samples * 2"
    unfolding eq using hl by (simp add: length_le16_concat)
  have d4: "\<exists>rest. drop 4 (wav_frame int16Samples) = le32 (36 + ?pcm) @ rest"
    unfolding eq wav_header_def by simp
  have d40: "\<exists>rest. drop 40 (wav_frame int16Samples) = le32 ?pcm @ rest"
    unfolding eq wav_header_def by (simp add: le32_def)
  have c4: "rd_le32 4 (wav_frame int16Samples) = unat (36 + ?pcm)"
    using d4 rd_le32_drop [of 4 "wav_frame int16Samples"] len rd_le32_le32 by auto
  have c5: "rd_le32 40 (wav_frame int16Samples) = unat ?pcm"
    using d40 rd_le32_drop [of 40 "wav_frame int16Samples"] len rd_le32_le32 by auto
  show ?thesis
    using c1 c2 c3 c4 c5 unat_pcm [OF assms] unfolding wav_header_def by simp
qed

theorem C5_wav_frame_layout_witness:
  "length (replicate 16000 (0 :: 16 word)) * 2 + 44 < (2 :: nat) ^ 32
   \<and> rd_le32 4 (wav_frame (replicate 16000 0)) = 32036
   \<and> rd_le32 40 (wav_frame (replicate 16000 0)) = 32000
   \<and> take 8 (wav_frame (replicate 16000 0)) = [0x52, 0x49, 0x46, 0x46, 0x24, 0x7D, 0, 0]
   \<and> length (wav_frame (replicate 16000 0)) = 32044"
proof -
  have h: "length (replicate 16000 (0 :: 16 word)) * 2 + 44 < (2 :: nat) ^ 32" by simp
  note t = C5_wav_frame_layout [OF h]
  note t2 = t [THEN conjunct2, THEN conjunct1]
  note t3 = t [THEN conjunct2, THEN conjunct2, THEN conjunct1]
  note t4 = t [THEN conjunct2, THEN conjunct2, THEN conjunct2, THEN conjunct1]
  note t5 = t [THEN conjunct2, THEN conjunct2, THEN conjunct2, THEN conjunct2]
  have a: "rd_le32 4 (wav_frame (replicate 16000 0)) = 32036"
    using t4 by simp
  have b: "rd_le32 40 (wav_frame (replicate 16000 0)) = 32000"
    using t5 by simp
  have "take 8 (take 44 (wav_frame (replicate 16000 0))) = [0x52, 0x49, 0x46, 0x46, 0x24, 0x7D, 0, 0]"
    unfolding t2 by (simp add: le32_def)
  then have c: "take 8 (wav_frame (replicate 16000 0)) = [0x52, 0x49, 0x46, 0x46, 0x24, 0x7D, 0, 0]"
    by simp
  have pl: "length (concat (map le16 (replicate 16000 (0 :: 16 word)))) = 32000"
    unfolding length_le16_concat by simp
  have "length (take 44 (wav_frame (replicate 16000 0)) @ drop 44 (wav_frame (replicate 16000 0))) = 32044"
    unfolding t2 t3 length_append pl by (simp add: le32_def)
  then have d: "length (wav_frame (replicate 16000 0)) = 32044"
    by simp
  show ?thesis using h a b c d by simp
qed

section \<open>Properties of name resolution\<close>

lemma first_pid_Some:
  "first_pid hit xs = Some p \<longleftrightarrow> first_in hit xs p"
proof (induction xs)
  case Nil
  show ?case by (simp add: first_in_def)
next
  case (Cons x xs)
  show ?case
  proof (cases "hit x")
    case True
    have "first_in hit (x # xs) p \<longleftrightarrow> p = x"
    proof
      assume "first_in hit (x # xs) p"
      then obtain i where i: "i < length (x # xs)" "(x # xs) ! i = p" "\<forall>j<i. \<not> hit ((x # xs) ! j)"
        unfolding first_in_def by blast
      have "i = 0"
      proof (rule ccontr)
        assume "i \<noteq> 0"
        then have "0 < i" by simp
        with i(3) have "\<not> hit ((x # xs) ! 0)" by blast
        with True show False by simp
      qed
      with i(2) show "p = x" by simp
    next
      assume "p = x"
      with True show "first_in hit (x # xs) p"
        unfolding first_in_def by (intro exI [of _ 0]) simp
    qed
    with True show ?thesis by auto
  next
    case False
    have "first_in hit (x # xs) p \<longleftrightarrow> first_in hit xs p"
    proof
      assume "first_in hit (x # xs) p"
      then obtain i where i: "i < length (x # xs)" "(x # xs) ! i = p" "hit p" "\<forall>j<i. \<not> hit ((x # xs) ! j)"
        unfolding first_in_def by blast
      from i(2,3) False have "i \<noteq> 0" by (cases i) auto
      then obtain k where k: "i = Suc k" by (cases i) auto
      have "\<forall>j<k. \<not> hit (xs ! j)"
      proof (intro allI impI)
        fix j assume "j < k"
        then have "Suc j < i" using k by simp
        with i(4) have "\<not> hit ((x # xs) ! Suc j)" by blast
        then show "\<not> hit (xs ! j)" by simp
      qed
      with i k show "first_in hit xs p"
        unfolding first_in_def by (intro exI [of _ k]) simp
    next
      assume "first_in hit xs p"
      then obtain i where i: "i < length xs" "xs ! i = p" "hit p" "\<forall>j<i. \<not> hit (xs ! j)"
        unfolding first_in_def by blast
      have "\<forall>j<Suc i. \<not> hit ((x # xs) ! j)"
      proof (intro allI impI)
        fix j assume "j < Suc i"
        then show "\<not> hit ((x # xs) ! j)" using False i(4) by (cases j) auto
      qed
      with i show "first_in hit (x # xs) p"
        unfolding first_in_def by (intro exI [of _ "Suc i"]) simp
    qed
    with False Cons show ?thesis by simp
  qed
qed

lemma first_pid_None: "first_pid hit xs = None \<longleftrightarrow> (\<forall>p \<in> set xs. \<not> hit p)"
  by (induction xs) auto

lemma find_char_takeWhile:
  "base_of s = takeWhile (\<lambda>c. c \<noteq> CHR ''.'') s"
proof -
  have "(case find_char c s of None \<Rightarrow> s | Some n \<Rightarrow> take n s) = takeWhile (\<lambda>x. x \<noteq> c) s" for c
    by (induction s) (auto split: option.splits)
  then show ?thesis by (simp add: base_of_def)
qed

lemma first_pid_mem: "first_pid hit xs = Some p \<Longrightarrow> p \<in> set xs \<and> hit p"
  by (induction xs) (auto split: if_splits)

text \<open>
  C3, as the specification states it: the second pass strips what follows the final dot.
  The source cuts at the first dot (\<^verbatim>\<open>find('.')\<close>): with \<^verbatim>\<open>Microsoft.Photos.exe\<close>
  running, the query \<^verbatim>\<open>Microsoft.Edge\<close> resolves to that process, where the
  specification's rule finds nothing.
\<close>

theorem C3_final_dot_counterexample:
  "FindPidForProcess photos_only [4242] ''Microsoft.Edge'' = 4242
   \<and> spec_resolve photos_only [4242] ''Microsoft.Edge'' = None"
  by code_simp

text \<open>
  C3, amended. On Windows, for every query and every process list: resolution returns the
  first process whose full name equals the query under \<^verbatim>\<open>_stricmp\<close> (case-insensitive);
  if there is none, it cuts the query and each candidate at their first dot and returns the
  first candidate whose cut name equals the cut query under \<^verbatim>\<open>_stricmp\<close>; it returns
  PID 0 when neither pass finds a process. On macOS every PID returned other than 0 is in
  the list and its name, whole or cut at the first dot, equals the query's up to case, and
  0 is returned when no name in the list equals the query's up to case in either form.
\<close>

theorem C3_resolve_first_dot:
  "(first_in (\<lambda>pid. stricmp_eq (gpn pid) q) pids p \<longrightarrow> FindPidForProcess gpn pids q = p)
   \<and> ((\<forall>pid \<in> set pids. \<not> stricmp_eq (gpn pid) q)
        \<and> first_in (\<lambda>pid. stricmp_eq (base_of (gpn pid)) (base_of q)) pids p \<longrightarrow>
        FindPidForProcess gpn pids q = p)
   \<and> ((\<forall>pid \<in> set pids. \<not> stricmp_eq (gpn pid) q
          \<and> \<not> stricmp_eq (base_of (gpn pid)) (base_of q)) \<longrightarrow>
        FindPidForProcess gpn pids q = 0)
   \<and> base_of q = takeWhile (\<lambda>c. c \<noteq> CHR ''.'') q
   \<and> (FindPidForProcess_mac gm ms q \<noteq> 0 \<longrightarrow>
        FindPidForProcess_mac gm ms q \<in> set ms
        \<and> (ci_equal (gm (FindPidForProcess_mac gm ms q)) q
             \<or> ci_equal (base_of (gm (FindPidForProcess_mac gm ms q))) (base_of q)))
   \<and> ((\<forall>pid \<in> set ms. \<not> ci_equal (gm pid) q
          \<and> \<not> ci_equal (base_of (gm pid)) (base_of q)) \<longrightarrow>
        FindPidForProcess_mac gm ms q = 0)"
proof -
  let ?e = "\<lambda>pid. stricmp_eq (gpn pid) q"
  let ?b = "\<lambda>pid. stricmp_eq (base_of (gpn pid)) (base_of q)"
  have w1: "FindPidForProcess gpn pids q = p" if "first_in ?e pids p"
    using that by (simp add: FindPidForProcess_def first_pid_Some [symmetric])
  have w2: "FindPidForProcess gpn pids q = p"
    if "\<forall>pid \<in> set pids. \<not> ?e pid" "first_in ?b pids p"
  proof -
    have "first_pid ?e pids = None" using that(1) by (simp add: first_pid_None)
    moreover have "first_pid ?b pids = Some p" using that(2) by (simp add: first_pid_Some)
    ultimately show ?thesis by (simp add: FindPidForProcess_def)
  qed
  have w3: "FindPidForProcess gpn pids q = 0"
    if "\<forall>pid \<in> set pids. \<not> ?e pid \<and> \<not> ?b pid"
  proof -
    have "first_pid ?e pids = None" "first_pid ?b pids = None"
      using that by (simp_all add: first_pid_None)
    then show ?thesis by (simp add: FindPidForProcess_def)
  qed
  let ?me = "\<lambda>pid. gm pid = q"
  let ?mb = "\<lambda>pid. base_of (gm pid) = base_of q"
  let ?r = "FindPidForProcess_mac gm ms q"
  have m1: "?r \<in> set ms \<and> (ci_equal (gm ?r) q \<or> ci_equal (base_of (gm ?r)) (base_of q))"
    if "?r \<noteq> 0"
  proof (cases "first_pid ?me ms")
    case (Some a)
    then have "?r = a" by (simp add: FindPidForProcess_mac_def)
    with first_pid_mem [OF Some] show ?thesis by (simp add: ci_equal_def)
  next
    case None
    show ?thesis
    proof (cases "first_pid ?mb ms")
      case (Some a)
      with None have "?r = a" by (simp add: FindPidForProcess_mac_def)
      with first_pid_mem [OF Some] show ?thesis by (simp add: ci_equal_def)
    next
      case None2: None
      with None have "?r = 0" by (simp add: FindPidForProcess_mac_def)
      with that show ?thesis by simp
    qed
  qed
  have m2: "?r = 0"
    if "\<forall>pid \<in> set ms. \<not> ci_equal (gm pid) q \<and> \<not> ci_equal (base_of (gm pid)) (base_of q)"
  proof -
    have "\<forall>pid \<in> set ms. \<not> ?me pid" "\<forall>pid \<in> set ms. \<not> ?mb pid"
      using that by (auto simp: ci_equal_def)
    then have "first_pid ?me ms = None" "first_pid ?mb ms = None"
      by (simp_all add: first_pid_None)
    then show ?thesis by (simp add: FindPidForProcess_mac_def)
  qed
  show ?thesis
    using w1 w2 w3 m1 m2 find_char_takeWhile [of q] by blast
qed

lemma chrome_eval:
  "first_pid (\<lambda>pid. stricmp_eq (chrome_only pid) ''CHROME.EXE'') [77] = Some 77"
  "first_pid (\<lambda>pid. stricmp_eq (chrome_only pid) ''chrome'') [77] = None"
  "first_pid (\<lambda>pid. stricmp_eq (base_of (chrome_only pid)) (base_of ''chrome'')) [77] = Some 77"
  "first_pid (\<lambda>pid. stricmp_eq (chrome_only pid) ''nonexistent-xyz'') [77] = None"
  "first_pid (\<lambda>pid. stricmp_eq (base_of (chrome_only pid)) (base_of ''nonexistent-xyz'')) [77] = None"
  by code_simp+

lemma safari_eval:
  "FindPidForProcess_mac safari_only [501] ''Safari'' = 501"
  "first_pid (\<lambda>pid. ci_equal (safari_only pid) ''chrome'') [501] = None"
  "first_pid (\<lambda>pid. ci_equal (base_of (safari_only pid)) (base_of ''chrome'')) [501] = None"
  by code_simp+

theorem C3_resolve_first_dot_witness:
  "FindPidForProcess chrome_only [77] ''CHROME.EXE'' = 77
   \<and> FindPidForProcess chrome_only [77] ''chrome'' = 77
   \<and> FindPidForProcess chrome_only [77] ''nonexistent-xyz'' = 0
   \<and> FindPidForProcess_mac safari_only [501] ''Safari'' \<noteq> 0
   \<and> FindPidForProcess_mac safari_only [501] ''Safari'' \<in> set [501]
   \<and> FindPidForProcess_mac safari_only [501] ''chrome'' = 0"
proof -
  have a: "first_in (\<lambda>pid. stricmp_eq (chrome_only pid) ''CHROME.EXE'') [77] 77"
    unfolding first_pid_Some [symmetric] by (rule chrome_eval)
  have b: "\<forall>pid \<in> set [77]. \<not> stricmp_eq (chrome_only pid) ''chrome''"
    unfolding first_pid_None [symmetric] by (rule chrome_eval)
  have c: "first_in (\<lambda>pid. stricmp_eq (base_of (chrome_only pid)) (base_of ''chrome'')) [77] 77"
    unfolding first_pid_Some [symmetric] by (rule chrome_eval)
  have d: "\<forall>pid \<in> set [77]. \<not> stricmp_eq (chrome_only pid) ''nonexistent-xyz''
           \<and> \<not> stricmp_eq (base_of (chrome_only pid)) (base_of ''nonexistent-xyz'')"
    using chrome_eval(4,5) unfolding first_pid_None by simp
  have e: "FindPidForProcess_mac safari_only [501] ''Safari'' \<noteq> 0"
    unfolding safari_eval by simp
  have f: "\<forall>pid \<in> set [501]. \<not> ci_equal (safari_only pid) ''chrome''
           \<and> \<not> ci_equal (base_of (safari_only pid)) (base_of ''chrome'')"
    using safari_eval(2,3) unfolding first_pid_None by simp
  note c2 = conjunct2
  have r1: "FindPidForProcess chrome_only [77] ''CHROME.EXE'' = 77"
    by (rule C3_resolve_first_dot [of chrome_only "''CHROME.EXE''" "[77]" 77 safari_only "[501]",
          THEN conjunct1, THEN mp, OF a])
  have r2: "FindPidForProcess chrome_only [77] ''chrome'' = 77"
    by (rule C3_resolve_first_dot [of chrome_only "''chrome''" "[77]" 77 safari_only "[501]",
          THEN c2, THEN conjunct1, THEN mp, OF conjI, OF b c])
  have r3: "FindPidForProcess chrome_only [77] ''nonexistent-xyz'' = 0"
    by (rule C3_resolve_first_dot [of chrome_only "''nonexistent-xyz''" "[77]" 77 safari_only "[501]",
          THEN c2, THEN c2, THEN conjunct1, THEN mp, OF d])
  have r4: "FindPidForProcess_mac safari_only [501] ''Safari'' \<in> set [501]"
    by (rule C3_resolve_first_dot [of chrome_only "''Safari''" "[77]" 77 safari_only "[501]",
          THEN c2, THEN c2, THEN c2, THEN c2, THEN conjunct1, THEN mp, OF e, THEN conjunct1])
  have r5: "FindPidForProcess_mac safari_only [501] ''chrome'' = 0"
    by (rule C3_resolve_first_dot [of chrome_only "''chrome''" "[77]" 77 safari_only "[501]",
          THEN c2, THEN c2, THEN c2, THEN c2, THEN c2, THEN mp, OF f])
  from r1 r2 r3 e r4 r5 show ?thesis
    by (intro conjI)
qed

section \<open>Properties of the capture session\<close>

text \<open>
  C1: while a session is running, \<^verbatim>\<open>Start\<close> returns \<open>False\<close> and leaves the capture object
  as it was, on both back ends; in particular a second \<^verbatim>\<open>Start\<close> right after a successful
  one is rejected and keeps the first call's target PID, callback and gate state. On
  Windows the gate state lives in the capture thread, which \<^verbatim>\<open>Start\<close> cannot reach.
\<close>

theorem C1_start_rejected_while_running:
  "(running s \<longrightarrow> wasapi_Start pid cb s = (Returns False, s))
   \<and> (running m \<longrightarrow> coreaudio_Start getpid pid cb m = (Returns False, m))
   \<and> (\<not> running s \<and> \<not> capture_thread s \<longrightarrow>
        fst (wasapi_Start pid0 cb0 s) = Returns True
        \<and> wasapi_Start pid cb (snd (wasapi_Start pid0 cb0 s))
            = (Returns False, snd (wasapi_Start pid0 cb0 s))
        \<and> targetPid (snd (wasapi_Start pid0 cb0 s)) = pid0
        \<and> tsfn (snd (wasapi_Start pid0 cb0 s)) = Held cb0)
   \<and> (\<not> running m \<and> \<not> capture_thread m \<longrightarrow>
        fst (coreaudio_Start getpid pid0 cb0 m) = Returns True
        \<and> coreaudio_Start getpid pid cb (snd (coreaudio_Start getpid pid0 cb0 m))
            = (Returns False, snd (coreaudio_Start getpid pid0 cb0 m))
        \<and> targetPid (snd (coreaudio_Start getpid pid0 cb0 m)) = pid0
        \<and> tsfn (snd (coreaudio_Start getpid pid0 cb0 m)) = Held cb0
        \<and> dsp (snd (coreaudio_Start getpid pid0 cb0 m)) = dsp m)"
  by (simp add: wasapi_Start_def coreaudio_Start_def Let_def)

theorem C1_start_rejected_while_running_witness:
  "wasapi_Start 0 7 new_WasapiLoopbackCapture
     = (Returns True, \<lparr> running = True, tsfn = Held 7, targetPid = 0, capture_thread = True \<rparr>)
   \<and> running \<lparr> running = True, tsfn = Held 7, targetPid = 0, capture_thread = True \<rparr>
   \<and> wasapi_Start 4242 8 \<lparr> running = True, tsfn = Held 7, targetPid = 0, capture_thread = True \<rparr>
     = (Returns False, \<lparr> running = True, tsfn = Held 7, targetPid = 0, capture_thread = True \<rparr>)
   \<and> running running_mac_session
   \<and> coreaudio_Start 4711 4242 8 running_mac_session = (Returns False, running_mac_session)"
proof -
  have a: "wasapi_Start 0 7 new_WasapiLoopbackCapture
     = (Returns True, \<lparr> running = True, tsfn = Held 7, targetPid = 0, capture_thread = True \<rparr>)"
    by (simp add: wasapi_Start_def new_WasapiLoopbackCapture_def)
  have b: "running \<lparr> running = True, tsfn = Held 7, targetPid = 0, capture_thread = True \<rparr>"
    by simp
  have c: "running running_mac_session"
    by (simp add: running_mac_session_def)
  show ?thesis
    using a b c
      C1_start_rejected_while_running [of
        "\<lparr> running = True, tsfn = Held 7, targetPid = 0, capture_thread = True \<rparr>" 4242 8
        running_mac_session 4711]
    by simp
qed

lemma acquire_no_enumerator:
  "wasapi_acquire no_enumerator (idle_locals\<lparr> com_initialized := True \<rparr>)
     = Broke Create_MMDeviceEnumerator_failed (idle_locals\<lparr> com_initialized := True \<rparr>)"
  by (simp add: wasapi_acquire_def create_enumerator_def no_enumerator_def working_wasapi_def)

text \<open>
  C4 says that a failed acquisition step releases what was acquired and leaves the session
  idle, ready for another \<^verbatim>\<open>Start\<close>. On Windows every step inside the
  \<^verbatim>\<open>do { ... } while (false)\<close> block leaves by \<^verbatim>\<open>break\<close>: the resources are released,
  but \<^verbatim>\<open>running_\<close> stays true (only the \<^verbatim>\<open>CoInitializeEx\<close> path clears it), and the next
  \<^verbatim>\<open>Start\<close> is rejected. Here the device enumerator cannot be created.
\<close>

theorem C4_failed_start_stays_running:
  "wasapi_Start 0 7 new_WasapiLoopbackCapture
     = (Returns True, \<lparr> running = True, tsfn = Held 7, targetPid = 0, capture_thread = True \<rparr>)
   \<and> wasapi_capture_thread no_enumerator []
         \<lparr> running = True, tsfn = Held 7, targetPid = 0, capture_thread = True \<rparr>
     = Exited (\<lparr> running = True, tsfn = Released 7, targetPid = 0, capture_thread = True \<rparr>,
               \<lparr> locals = idle_locals, thread_dsp = init_dsp,
                 printed = [Create_MMDeviceEnumerator_failed], delivered = [] \<rparr>)
   \<and> wasapi_Start 0 8 \<lparr> running = True, tsfn = Released 7, targetPid = 0, capture_thread = True \<rparr>
     = (Returns False, \<lparr> running = True, tsfn = Released 7, targetPid = 0, capture_thread = True \<rparr>)"
proof -
  have a: "wasapi_Start 0 7 new_WasapiLoopbackCapture
     = (Returns True, \<lparr> running = True, tsfn = Held 7, targetPid = 0, capture_thread = True \<rparr>)"
    by (simp add: wasapi_Start_def new_WasapiLoopbackCapture_def)
  have i: "CoInitializeEx_ok no_enumerator"
    by (simp add: no_enumerator_def working_wasapi_def)
  have b: "wasapi_capture_thread no_enumerator []
         \<lparr> running = True, tsfn = Held 7, targetPid = 0, capture_thread = True \<rparr>
     = Exited (\<lparr> running = True, tsfn = Released 7, targetPid = 0, capture_thread = True \<rparr>,
               \<lparr> locals = idle_locals, thread_dsp = init_dsp,
                 printed = [Create_MMDeviceEnumerator_failed], delivered = [] \<rparr>)"
    unfolding wasapi_capture_thread_def acquire_no_enumerator
    using i by (simp add: wasapi_cleanup_def idle_locals_def Release_def)
  have c: "wasapi_Start 0 8 \<lparr> running = True, tsfn = Released 7, targetPid = 0, capture_thread = True \<rparr>
     = (Returns False, \<lparr> running = True, tsfn = Released 7, targetPid = 0, capture_thread = True \<rparr>)"
    by (simp add: wasapi_Start_def)
  show ?thesis using a b c by (intro conjI)
qed

lemma and_then_Broke: "foldl and_then (Broke m l) fs = Broke m l"
  by (induction fs) simp_all

lemma wasapi_break_keeps_running:
  assumes "CoInitializeEx_ok be"
    and "wasapi_acquire be (idle_locals\<lparr> com_initialized := True \<rparr>) = Broke m l"
  shows "\<exists>t. wasapi_capture_thread be evs c = Exited (c\<lparr> tsfn := Release (tsfn c) \<rparr>, t)
             \<and> locals t = idle_locals"
  using assms by (simp add: wasapi_capture_thread_def wasapi_cleanup_def idle_locals_def)

lemma coreaudio_failed_start_then_terminate:
  "coreaudio_capture_thread no_blackhole stop_seen (snd (coreaudio_Start getpid pid cb
       (new_CoreAudioLoopbackCapture cur dev d fmt bpf)))
     = Exited (s, msgs) \<Longrightarrow>
   \<not> running s \<and> coreaudio_Stop s = s \<and> fst (coreaudio_Start getpid pid' cb' s) = Terminates"
  by (auto simp: coreaudio_capture_thread_def coreaudio_Start_def coreaudio_Stop_def
      new_CoreAudioLoopbackCapture_def no_blackhole_def working_coreaudio_def Let_def)

lemma drain_GetBufferFailed:
  "drain fmt bs GetBufferFailed t
     = map_option (\<lambda>t'. t'\<lparr> printed := printed t' @ [GetBuffer_failed] \<rparr>) (drain fmt bs NoPacket t)"
  by (induction bs arbitrary: t) (simp_all split: option.splits)

lemma drain_PacketSizeFailed:
  "drain fmt bs PacketSizeFailed t = drain fmt bs NoPacket t"
  by (induction bs arbitrary: t) (simp_all split: option.splits)

lemma capture_loop_never_exits:
  "running c \<Longrightarrow> StopRequested \<notin> set evs \<Longrightarrow>
   capture_loop fmt evs (c, t) = Undefined \<or> (\<exists>t'. capture_loop fmt evs (c, t) = Waiting (c, t'))"
proof (induction evs arbitrary: t)
  case Nil
  then show ?case by simp
next
  case (Cons ev evs)
  then have ih: "capture_loop fmt evs (c, u) = Undefined
      \<or> (\<exists>t'. capture_loop fmt evs (c, u) = Waiting (c, t'))" for u
    by simp
  from Cons.prems show ?case
  proof (cases ev)
    case WaitTimeout
    with Cons.prems ih [of t] show ?thesis by simp
  next
    case (BufferReady bs e)
    show ?thesis
    proof (cases "drain fmt bs e t")
      case None
      with BufferReady Cons.prems show ?thesis by simp
    next
      case (Some u)
      with BufferReady Cons.prems ih [of u] show ?thesis by simp
    qed
  next
    case StopRequested
    with Cons.prems show ?thesis by simp
  qed
qed

text \<open>
  C9, as the specification states it: a failed buffer fetch in a running session is logged.
  On macOS the render callback prints a failed \<^verbatim>\<open>AudioUnitRender\<close> only while
  \<^verbatim>\<open>callbackCount <= 5\<close>: the sixth callback fails without a line.
\<close>

theorem C9_render_failure_counterexample:
  "running running_mac_session
   \<and> InputCallback True (RenderFailed (- 10863)) 512 running_mac_session
         \<lparr> callbackCount = 5, debugCount = 5, sampleCount = 2560 \<rparr>
       = Some (- 10863, running_mac_session,
               \<lparr> callbackCount = 6, debugCount = 5, sampleCount = 2560 \<rparr>, [], [])"
  by (simp add: InputCallback_def running_mac_session_def Let_def)

text \<open>
  C9, amended. On Windows a failed \<^verbatim>\<open>GetBuffer\<close> is logged, ends the drain of the current
  wake-up and the loop goes on with the next event, exactly as if the drain had run out of
  packets; a failed \<^verbatim>\<open>GetNextPacketSize\<close> does the same without a line; and without a stop
  request the loop never exits, whatever fails, and never touches the capture object. On
  macOS a failed \<^verbatim>\<open>AudioUnitRender\<close> leaves the session as it is, delivers no frame,
  returns the status, and is logged while the callback count is at most 5.
\<close>

theorem C9_fetch_failure_keeps_running:
  "(running c \<longrightarrow>
      capture_loop fmt (BufferReady bs GetBufferFailed # evs) (c, t)
        = (case drain fmt bs NoPacket t of
             None \<Rightarrow> Undefined
           | Some t' \<Rightarrow>
               capture_loop fmt evs (c, t'\<lparr> printed := printed t' @ [GetBuffer_failed] \<rparr>)))
   \<and> (running c \<longrightarrow>
      capture_loop fmt (BufferReady bs PacketSizeFailed # evs) (c, t)
        = capture_loop fmt (BufferReady bs NoPacket # evs) (c, t))
   \<and> (running c \<and> StopRequested \<notin> set evs \<longrightarrow>
      capture_loop fmt evs (c, t) = Undefined
      \<or> (\<exists>t'. capture_loop fmt evs (c, t) = Waiting (c, t')))
   \<and> (running m \<longrightarrow>
      InputCallback True (RenderFailed st) n m cs
        = Some (st, m, cs\<lparr> callbackCount := callbackCount cs + 1 \<rparr>,
                (if (callbackCount cs + 1) mod 100 = 0 then [InputCallback_called] else [])
                @ (if callbackCount cs + 1 \<le> 5 then [AudioUnitRender_failed] else []),
                []))"
proof -
  have a: "capture_loop fmt (BufferReady bs GetBufferFailed # evs) (c, t)
        = (case drain fmt bs NoPacket t of
             None \<Rightarrow> Undefined
           | Some t' \<Rightarrow>
               capture_loop fmt evs (c, t'\<lparr> printed := printed t' @ [GetBuffer_failed] \<rparr>))"
    if "running c"
    using that by (simp add: drain_GetBufferFailed split: option.splits)
  have b: "capture_loop fmt (BufferReady bs PacketSizeFailed # evs) (c, t)
        = capture_loop fmt (BufferReady bs NoPacket # evs) (c, t)"
    by (simp add: drain_PacketSizeFailed)
  have d: "InputCallback True (RenderFailed st) n m cs
        = Some (st, m, cs\<lparr> callbackCount := callbackCount cs + 1 \<rparr>,
                (if (callbackCount cs + 1) mod 100 = 0 then [InputCallback_called] else [])
                @ (if callbackCount cs + 1 \<le> 5 then [AudioUnitRender_failed] else []),
                [])"
    if "running m"
    using that by (simp add: InputCallback_def Let_def)
  show ?thesis
    using a b d capture_loop_never_exits [of c evs fmt t] by blast
qed

theorem C9_fetch_failure_keeps_running_witness:
  "running \<lparr> running = True, tsfn = Held 7, targetPid = 0, capture_thread = True \<rparr>
   \<and> StopRequested \<notin> set [BufferReady [] GetBufferFailed, BufferReady [] PacketSizeFailed, WaitTimeout]
   \<and> capture_loop stereo_48k
        [BufferReady [] GetBufferFailed, BufferReady [] PacketSizeFailed, WaitTimeout]
        (\<lparr> running = True, tsfn = Held 7, targetPid = 0, capture_thread = True \<rparr>,
         \<lparr> locals = idle_locals, thread_dsp = init_dsp, printed = [], delivered = [] \<rparr>)
       = Waiting (\<lparr> running = True, tsfn = Held 7, targetPid = 0, capture_thread = True \<rparr>,
                  \<lparr> locals = idle_locals, thread_dsp = init_dsp, printed = [GetBuffer_failed],
                    delivered = [] \<rparr>)
   \<and> running running_mac_session
   \<and> InputCallback True (RenderFailed (- 10863)) 512 running_mac_session
         \<lparr> callbackCount = 0, debugCount = 0, sampleCount = 0 \<rparr>
       = Some (- 10863, running_mac_session,
               \<lparr> callbackCount = 1, debugCount = 0, sampleCount = 0 \<rparr>,
               [AudioUnitRender_failed], [])"
proof -
  let ?c = "\<lparr> running = True, tsfn = Held 7, targetPid = 0, capture_thread = True \<rparr>"
  let ?t = "\<lparr> locals = idle_locals, thread_dsp = init_dsp, printed = [], delivered = [] \<rparr>"
  have r: "running ?c" by simp
  have n: "StopRequested \<notin> set [BufferReady [] GetBufferFailed, BufferReady [] PacketSizeFailed, WaitTimeout]"
    by simp
  have m: "running running_mac_session" by (simp add: running_mac_session_def)
  note T = C9_fetch_failure_keeps_running [of ?c stereo_48k "[]" "[BufferReady [] PacketSizeFailed, WaitTimeout]" ?t
      running_mac_session "- 10863" 512 "\<lparr> callbackCount = 0, debugCount = 0, sampleCount = 0 \<rparr>"]
  have w: "capture_loop stereo_48k
        [BufferReady [] GetBufferFailed, BufferReady [] PacketSizeFailed, WaitTimeout] (?c, ?t)
       = Waiting (?c, ?t\<lparr> printed := [GetBuffer_failed] \<rparr>)"
    using T [THEN conjunct1, THEN mp, OF r] by simp
  have k: "InputCallback True (RenderFailed (- 10863)) 512 running_mac_session
         \<lparr> callbackCount = 0, debugCount = 0, sampleCount = 0 \<rparr>
       = Some (- 10863, running_mac_session,
               \<lparr> callbackCount = 1, debugCount = 0, sampleCount = 0 \<rparr>,
               [AudioUnitRender_failed], [])"
    using T [THEN conjunct2, THEN conjunct2, THEN conjunct2, THEN mp, OF m] by simp
  show ?thesis
    using r n w k m by simp
qed

end
